theory Spec2Isabelle
  imports Complex_Main
begin

section \<open>JavaScript values\<close>

text \<open>
  The dashboard (\<^verbatim>\<open>src/pages/index.js\<close>) handles whatever JSON the API returns, so the
  model works on JavaScript values.  A number is an IEEE double: not-a-number, one of the
  two infinities, or a finite value, which is carried here as the real number it denotes
  (both zeros are \<open>Fin 0\<close>).  The code only compares numbers and picks one of two, so no
  rounding takes place anywhere.  A string is a sequence of UTF-16 code units; it is
  carried here as its bytes in generalised UTF-8, where a surrogate without its partner
  is the three bytes \<open>ED\<close>, \<open>A0\<close> to \<open>BF\<close>, \<open>80\<close> to \<open>BF\<close>, and a surrogate pair is
  the four bytes of the character it stands for.
\<close>

datatype jsnum = NaN | NegInf | Fin real | PosInf

datatype js =
    Undefined
  | Null
  | Bool bool
  | Num jsnum
  | Str string
  | Arr "js list"
  | Obj "(string \<times> js) list"

datatype exn = TypeError

text \<open>ToBoolean: what \<^verbatim>\<open>if (v)\<close>, \<^verbatim>\<open>!v\<close> and \<^verbatim>\<open>v || w\<close> test.\<close>

fun truthy :: "js \<Rightarrow> bool" where
  "truthy Undefined = False"
| "truthy Null = False"
| "truthy (Bool b) = b"
| "truthy (Num NaN) = False"
| "truthy (Num (Fin r)) = (r \<noteq> 0)"
| "truthy (Num NegInf) = True"
| "truthy (Num PosInf) = True"
| "truthy (Str s) = (s \<noteq> [])"
| "truthy (Arr xs) = True"
| "truthy (Obj kvs) = True"

text \<open>\<^verbatim>\<open>a || b\<close> on values that are already evaluated.\<close>

definition or_else :: "js \<Rightarrow> js \<Rightarrow> js" where
  "or_else a b = (if truthy a then a else b)"

text \<open>
  \<^verbatim>\<open>v.k\<close> for the field names the dashboard reads (\<^verbatim>\<open>device_name\<close>, \<^verbatim>\<open>device\<close>,
  \<^verbatim>\<open>deviceName\<close>, \<^verbatim>\<open>data\<close>, \<^verbatim>\<open>count\<close>, \<^verbatim>\<open>topic\<close>, \<^verbatim>\<open>payload_json\<close>, \<^verbatim>\<open>payload_raw\<close>,
  \<^verbatim>\<open>timestamp\<close>, \<^verbatim>\<open>created_at\<close>, \<^verbatim>\<open>createdAt\<close>).  No prototype defines any of them, so the
  read finds an own property of an object or nothing; on \<^verbatim>\<open>null\<close> and \<^verbatim>\<open>undefined\<close>
  it throws.
\<close>

fun get_field :: "js \<Rightarrow> string \<Rightarrow> exn + js" where
  "get_field Undefined k = Inl TypeError"
| "get_field Null k = Inl TypeError"
| "get_field (Obj kvs) k = Inr (case map_of kvs k of None \<Rightarrow> Undefined | Some v \<Rightarrow> v)"
| "get_field v k = Inr Undefined"

text \<open>
  A template literal \<^verbatim>\<open>`... ${v} ...`\<close> converts \<open>v\<close> to a string.  For a plain object
  that carries an own property \<^verbatim>\<open>toString\<close> (never callable in parsed JSON) the
  conversion throws a TypeError; an array converts its elements (skipping \<^verbatim>\<open>null\<close> and
  \<^verbatim>\<open>undefined\<close>) and throws when one of them does; everything else converts.
\<close>

fun tostring_throws :: "js \<Rightarrow> bool" where
  "tostring_throws (Obj kvs) = (''toString'' \<in> set (map fst kvs))"
| "tostring_throws (Arr xs) = list_ex tostring_throws xs"
| "tostring_throws v = False"

text \<open>
  \<^verbatim>\<open>encodeURIComponent(v)\<close> throws a URIError when the string conversion of \<open>v\<close> holds
  a surrogate without its partner.  In the bytes of a string that is the byte \<open>ED\<close>
  followed by a byte from \<open>A0\<close> on.  An array converts to its elements' strings with
  commas in between, so it holds one exactly when an element does; numbers, booleans
  and plain objects convert to ASCII.
\<close>

fun lone_surrogate :: "string \<Rightarrow> bool" where
  "lone_surrogate (a # b # cs) =
     ((a = CHR 0xED \<and> 160 \<le> (of_char b :: nat)) \<or> lone_surrogate (b # cs))"
| "lone_surrogate cs = False"

fun uri_throws :: "js \<Rightarrow> bool" where
  "uri_throws (Str t) = lone_surrogate t"
| "uri_throws (Arr xs) = list_ex uri_throws xs"
| "uri_throws v = False"

text \<open>
  Text shown to the user.  A message is a sequence of literal pieces and substituted
  values; \<open>Sub v\<close> stands for the string conversion of \<open>v\<close>, taken only where that
  conversion succeeded.
\<close>

datatype piece = Lit string | Sub js

type_synonym message = "piece list"

definition ellipsis :: string where
  "ellipsis = [CHR 0xE2, CHR 0x80, CHR 0xA6]"

text \<open>
  \<^verbatim>\<open>Math.min\<close> and \<^verbatim>\<open>Math.max\<close> of two numbers, and \<^verbatim>\<open>n || m\<close> on numbers
  (zero and not-a-number are falsy).
\<close>

fun num_le :: "jsnum \<Rightarrow> jsnum \<Rightarrow> bool" where
  "num_le NaN b = False"
| "num_le a NaN = False"
| "num_le NegInf b = True"
| "num_le a PosInf = True"
| "num_le (Fin x) (Fin y) = (x \<le> y)"
| "num_le a b = False"

definition Math_min :: "jsnum \<Rightarrow> jsnum \<Rightarrow> jsnum" where
  "Math_min a b = (if a = NaN \<or> b = NaN then NaN else if num_le a b then a else b)"

definition Math_max :: "jsnum \<Rightarrow> jsnum \<Rightarrow> jsnum" where
  "Math_max a b = (if a = NaN \<or> b = NaN then NaN else if num_le a b then b else a)"

definition num_or :: "jsnum \<Rightarrow> jsnum \<Rightarrow> jsnum" where
  "num_or a b = (if truthy (Num a) then a else b)"

section \<open>The component state\<close>

text \<open>The seven \<^verbatim>\<open>useState\<close> cells of \<^verbatim>\<open>Home\<close>, with their initial values.\<close>

record state =
  devices :: "js list"
  selectedDevice :: js
  limit :: jsnum
  rows :: js
  status :: message
  error :: string
  loading :: bool

definition init_state :: state where
  "init_state = \<lparr> devices = [], selectedDevice = Str [], limit = Fin 50, rows = Arr [],
     status = [Lit (''Initializing'' @ ellipsis)], error = [], loading = False \<rparr>"

section \<open>Effects and responses\<close>

text \<open>
  What an operation does besides updating the state, in the order it happens:
  \<^item> \<open>Invoked name lim showLoading\<close>: \<^verbatim>\<open>fetchDeviceData\<close> was called with these arguments;
  \<^item> \<open>Await_devices lim\<close>: \<^verbatim>\<open>GET /devices\<close> was issued and \<^verbatim>\<open>fetchDevices\<close> is suspended
    on it; \<open>lim\<close> is the \<^verbatim>\<open>limit\<close> its closure holds;
  \<^item> \<open>Await_data name lim showLoading\<close>: \<^verbatim>\<open>GET /devices/<name>/data?limit=<lim>\<close> was issued
    and \<^verbatim>\<open>fetchDeviceData\<close> is suspended on it;
  \<^item> \<open>Console_error c\<close>: the \<^verbatim>\<open>catch\<close> block \<open>c\<close> ran (\<^verbatim>\<open>console.error(err)\<close>, line 58
    in \<^verbatim>\<open>fetchDevices\<close>, line 85 in \<^verbatim>\<open>fetchDeviceData\<close>);
  \<^item> \<open>Uncaught\<close>: an exception left the async function (its promise is rejected).
\<close>

datatype catch_block = Devices_catch | Data_catch

datatype effect =
    Invoked js jsnum bool
  | Await_devices jsnum
  | Await_data js jsnum bool
  | Console_error catch_block
  | Uncaught

text \<open>
  How an awaited request ends: \<^verbatim>\<open>fetch\<close> rejects (network error), or a response
  arrives with a status code and a body that \<^verbatim>\<open>res.json()\<close> parses (\<open>Some\<close>) or rejects
  (\<open>None\<close>).  \<^verbatim>\<open>res.ok\<close> is true exactly for the status codes 200 to 299.
\<close>

datatype outcome = Network_error | Response nat "js option"

definition ok :: "nat \<Rightarrow> bool" where
  "ok st = (200 \<le> st \<and> st \<le> 299)"

section \<open>fetchDeviceData\<close>

text \<open>The \<^verbatim>\<open>catch\<close> block of lines 84 to 87.\<close>

definition data_catch :: "state \<Rightarrow> state \<times> effect list" where
  "data_catch s =
     (s\<lparr>error := ''Failed to load data. Check API / database.'',
        status := [Lit ''Error loading data.'']\<rparr>, [Console_error Data_catch])"

text \<open>The \<^verbatim>\<open>finally\<close> block of lines 88 to 90.\<close>

definition data_finally :: "bool \<Rightarrow> state \<Rightarrow> state" where
  "data_finally showLoading s = (if showLoading then s\<lparr>loading := False\<rparr> else s)"

text \<open>
  Lines 64 to 78, up to the \<^verbatim>\<open>await fetch(url)\<close>.  The status template of line 72 is
  outside the \<^verbatim>\<open>try\<close>, so a name whose string conversion throws rejects the call
  after \<^verbatim>\<open>setLoading\<close> and \<^verbatim>\<open>setError\<close> have run.  Building the URL (lines 75 to
  77) is inside the \<^verbatim>\<open>try\<close>: when \<^verbatim>\<open>encodeURIComponent\<close> throws, no request is
  issued and \<^verbatim>\<open>catch\<close> and \<^verbatim>\<open>finally\<close> run before the call returns.
\<close>

definition fetchDeviceData :: "js \<Rightarrow> jsnum \<Rightarrow> bool \<Rightarrow> state \<Rightarrow> state \<times> effect list" where
  "fetchDeviceData deviceName limitValue showLoading s =
     (if \<not> truthy deviceName
      then (s\<lparr>status := [Lit ''Please select a device.'']\<rparr>,
            [Invoked deviceName limitValue showLoading])
      else
        let s1 = (if showLoading then s\<lparr>loading := True\<rparr> else s);
            s2 = s1\<lparr>error := []\<rparr>
        in if tostring_throws deviceName
           then (s2, [Invoked deviceName limitValue showLoading, Uncaught])
           else
             let s3 = s2\<lparr>status := [Lit ''Loading data for '', Sub deviceName, Lit ellipsis]\<rparr>
             in if uri_throws deviceName
                then (case data_catch s3 of
                        (s4, es) \<Rightarrow>
                          (data_finally showLoading s4,
                           Invoked deviceName limitValue showLoading # es))
                else (s3, [Invoked deviceName limitValue showLoading,
                           Await_data deviceName limitValue showLoading]))"

text \<open>Lines 79 to 83: the rest of the \<^verbatim>\<open>try\<close> block once the request has ended.\<close>

definition data_try :: "js \<Rightarrow> outcome \<Rightarrow> state \<Rightarrow> state \<times> effect list" where
  "data_try deviceName out s =
     (case out of
        Network_error \<Rightarrow> data_catch s
      | Response st body \<Rightarrow>
          if \<not> ok st then data_catch s
          else (case body of
             None \<Rightarrow> data_catch s
           | Some json \<Rightarrow>
              (case get_field json ''data'' of
                 Inl e \<Rightarrow> data_catch s
               | Inr d \<Rightarrow>
                  let s1 = s\<lparr>rows := or_else d (Arr [])\<rparr> in
                  (case get_field json ''count'' of
                     Inl e \<Rightarrow> data_catch s1
                   | Inr c \<Rightarrow>
                      let n = or_else c (Num (Fin 0)) in
                      if tostring_throws n \<or> tostring_throws deviceName then data_catch s1
                      else (s1\<lparr>status := [Lit ''Loaded '', Sub n, Lit '' rows for '',
                                            Sub deviceName, Lit ''.'']\<rparr>, [])))))"

text \<open>The continuation after the \<^verbatim>\<open>await\<close>: \<^verbatim>\<open>try\<close>/\<^verbatim>\<open>catch\<close>, then \<^verbatim>\<open>finally\<close>.\<close>

definition fetchDeviceData_resume :: "js \<Rightarrow> bool \<Rightarrow> outcome \<Rightarrow> state \<Rightarrow> state \<times> effect list" where
  "fetchDeviceData_resume deviceName showLoading out s =
     (case data_try deviceName out s of
        (s1, es) \<Rightarrow> (data_finally showLoading s1, es))"

section \<open>fetchDevices\<close>

text \<open>Line 41: the name of one record.\<close>

definition name_of :: "js \<Rightarrow> exn + js" where
  "name_of d =
     (case get_field d ''device_name'' of
        Inl e \<Rightarrow> Inl e
      | Inr a \<Rightarrow>
         if truthy a then Inr a
         else (case get_field d ''device'' of
            Inl e \<Rightarrow> Inl e
          | Inr b \<Rightarrow> if truthy b then Inr b else get_field d ''deviceName''))"

text \<open>\<^verbatim>\<open>xs.map(f)\<close> where \<open>f\<close> may throw: the first exception ends the loop.\<close>

fun map_throwing :: "('a \<Rightarrow> exn + 'b) \<Rightarrow> 'a list \<Rightarrow> exn + 'b list" where
  "map_throwing f [] = Inr []"
| "map_throwing f (x # xs) =
     (case f x of
        Inl e \<Rightarrow> Inl e
      | Inr y \<Rightarrow> (case map_throwing f xs of Inl e \<Rightarrow> Inl e | Inr ys \<Rightarrow> Inr (y # ys)))"

text \<open>
  Lines 40 and 41: \<^verbatim>\<open>data?.map(...) || []\<close>.  \<^verbatim>\<open>null\<close> gives the empty list; a value
  that is neither \<^verbatim>\<open>null\<close> nor an array has no callable \<^verbatim>\<open>map\<close>, so the call throws.
\<close>

fun deviceNames_of :: "js \<Rightarrow> exn + js list" where
  "deviceNames_of Undefined = Inr []"
| "deviceNames_of Null = Inr []"
| "deviceNames_of (Arr ds) = map_throwing name_of ds"
| "deviceNames_of v = Inl TypeError"

text \<open>Lines 31 to 36, up to the \<^verbatim>\<open>await fetch\<close>.\<close>

definition fetchDevices :: "state \<Rightarrow> state \<times> effect list" where
  "fetchDevices s =
     (s\<lparr>status := [Lit (''Loading devices'' @ ellipsis)], error := []\<rparr>,
      [Await_devices (limit s)])"

text \<open>The \<^verbatim>\<open>catch\<close> block of lines 57 to 61.\<close>

definition devices_catch :: "state \<Rightarrow> state \<times> effect list" where
  "devices_catch s =
     (s\<lparr>error := ''Failed to load devices. Check API server or CORS.'',
        status := [Lit ''Error loading devices.'']\<rparr>, [Console_error Devices_catch])"

text \<open>
  Lines 37 to 61: the continuation after the \<^verbatim>\<open>await\<close>.  \<open>limit0\<close> is the \<^verbatim>\<open>limit\<close> of
  the closure.  The call of line 56 runs \<^verbatim>\<open>fetchDeviceData\<close> up to its own \<^verbatim>\<open>await\<close>;
  being a call of an async function, it never throws into this \<^verbatim>\<open>try\<close>.
\<close>

definition fetchDevices_resume :: "jsnum \<Rightarrow> outcome \<Rightarrow> state \<Rightarrow> state \<times> effect list" where
  "fetchDevices_resume limit0 out s =
     (case out of
        Network_error \<Rightarrow> devices_catch s
      | Response st body \<Rightarrow>
          if \<not> ok st then devices_catch s
          else (case body of
             None \<Rightarrow> devices_catch s
           | Some data \<Rightarrow>
              (case deviceNames_of data of
                 Inl e \<Rightarrow> devices_catch s
               | Inr deviceNames \<Rightarrow>
                  let s1 = s\<lparr>devices := deviceNames\<rparr> in
                  (case deviceNames of
                     [] \<Rightarrow> (s1\<lparr>selectedDevice := Str [],
                               status := [Lit ''No devices found in database.'']\<rparr>, [])
                   | first # rest \<Rightarrow>
                      let s2 = s1\<lparr>selectedDevice := first\<rparr> in
                      if tostring_throws first then devices_catch s2
                      else fetchDeviceData first limit0 True
                             (s2\<lparr>status := [Lit ''Devices loaded. Selected: '', Sub first]\<rparr>)))))"

section \<open>Event handlers and the timer\<close>

text \<open>Lines 93 to 101; \<open>v\<close> is \<^verbatim>\<open>e.target.value\<close>, a string.\<close>

definition handleDeviceChange :: "string \<Rightarrow> state \<Rightarrow> state \<times> effect list" where
  "handleDeviceChange v s =
     (let s1 = s\<lparr>selectedDevice := Str v\<rparr> in
      if truthy (Str v) then fetchDeviceData (Str v) (limit s) True s1
      else (s1\<lparr>rows := Arr []\<rparr>, []))"

text \<open>Lines 103 to 106.\<close>

definition handleRefreshClick :: "state \<Rightarrow> state \<times> effect list" where
  "handleRefreshClick s =
     (if \<not> truthy (selectedDevice s) then (s, [])
      else fetchDeviceData (selectedDevice s) (limit s) True s)"

text \<open>
  Lines 22 to 26: the interval callback.  The effect is re-created whenever
  \<^verbatim>\<open>selectedDevice\<close>, \<^verbatim>\<open>limit\<close> or \<^verbatim>\<open>loading\<close> changes, so the callback reads the
  current values.
\<close>

definition tick :: "state \<Rightarrow> state \<times> effect list" where
  "tick s =
     (if truthy (selectedDevice s) \<and> \<not> loading s
      then fetchDeviceData (selectedDevice s) (limit s) False s
      else (s, []))"

text \<open>
  Lines 144 to 146.  \<open>Number\<close> is the platform's string-to-number conversion, a
  parameter here; \<open>v\<close> is \<^verbatim>\<open>e.target.value\<close>.
\<close>

definition limit_onChange :: "(string \<Rightarrow> jsnum) \<Rightarrow> string \<Rightarrow> state \<Rightarrow> state" where
  "limit_onChange Number v s =
     s\<lparr>limit := Math_max (Fin 1) (Math_min (Fin 500) (num_or (Number v) (Fin 1)))\<rparr>"

section \<open>Whole operations\<close>

text \<open>
  An operation run from its call to its end with nothing in between: the part before the
  \<^verbatim>\<open>await\<close>, then the continuation on the outcome of the request.  \<^verbatim>\<open>fetchDevices\<close>
  ends where the \<^verbatim>\<open>fetchDeviceData\<close> it calls is suspended on its own request.
\<close>

definition list_devices :: "outcome \<Rightarrow> state \<Rightarrow> state \<times> effect list" where
  "list_devices out s =
     (case fetchDevices s of
        (s1, es1) \<Rightarrow>
          (case fetchDevices_resume (limit s) out s1 of (s2, es2) \<Rightarrow> (s2, es1 @ es2)))"

definition fetch_device_data ::
    "js \<Rightarrow> jsnum \<Rightarrow> bool \<Rightarrow> outcome \<Rightarrow> state \<Rightarrow> state \<times> effect list" where
  "fetch_device_data deviceName limitValue showLoading out s =
     (case fetchDeviceData deviceName limitValue showLoading s of
        (s1, es1) \<Rightarrow>
          if Await_data deviceName limitValue showLoading \<in> set es1
          then (case fetchDeviceData_resume deviceName showLoading out s1 of
                  (s2, es2) \<Rightarrow> (s2, es1 @ es2))
          else (s1, es1))"

text \<open>
  The three ways a request fails: network error, status outside 200 to 299, body that
  does not parse.
\<close>

fun request_failed :: "outcome \<Rightarrow> bool" where
  "request_failed Network_error = True"
| "request_failed (Response st body) = (\<not> ok st \<or> body = None)"

text \<open>The calls of \<^verbatim>\<open>fetchDeviceData\<close> among the effects of an operation.\<close>

fun is_call :: "effect \<Rightarrow> bool" where
  "is_call (Invoked n l b) = True"
| "is_call e = False"

definition calls :: "effect list \<Rightarrow> effect list" where
  "calls es = filter is_call es"

text \<open>The data requests issued among the effects of an operation.\<close>

fun is_data_request :: "effect \<Rightarrow> bool" where
  "is_data_request (Await_data n l b) = True"
| "is_data_request e = False"

section \<open>The running component\<close>

text \<open>
  The component over time: its state, the requests in flight (each with the number its
  fetch was started under and the variables its continuation holds), and the history of
  fetches, newest first.  Requests end in any order.  A call of \<^verbatim>\<open>fetchDeviceData\<close>
  that fails while building its URL is a fetch that starts and fails without a request.
\<close>

datatype hist = Started nat | Failed nat | Succeeded nat

record world =
  ui :: state
  inflight :: "(nat \<times> effect) list"
  next_id :: nat
  history :: "hist list"

definition init_world :: world where
  "init_world = \<lparr> ui = init_state, inflight = [], next_id = 0, history = [] \<rparr>"

definition register :: "effect \<Rightarrow> world \<Rightarrow> world" where
  "register e w =
     w\<lparr>inflight := inflight w @ [(next_id w, e)], next_id := Suc (next_id w),
       history := Started (next_id w) # history w\<rparr>"

definition fail_at_once :: "world \<Rightarrow> world" where
  "fail_at_once w =
     w\<lparr>next_id := Suc (next_id w),
       history := Failed (next_id w) # Started (next_id w) # history w\<rparr>"

text \<open>
  The calls an operation made: every request issued goes in flight, and a call of
  \<^verbatim>\<open>fetchDeviceData\<close> that went through its \<^verbatim>\<open>catch\<close> before returning is recorded as
  started and failed.
\<close>

fun spawn :: "effect list \<Rightarrow> world \<Rightarrow> world" where
  "spawn [] w = w"
| "spawn (Await_devices l # es) w = spawn es (register (Await_devices l) w)"
| "spawn (Await_data n l b # es) w = spawn es (register (Await_data n l b) w)"
| "spawn (Console_error Data_catch # es) w = spawn es (fail_at_once w)"
| "spawn (e # es) w = spawn es w"

text \<open>Request \<open>i\<close> has ended, by failure (its continuation went through \<^verbatim>\<open>catch\<close>) or not.\<close>

definition finish :: "nat \<Rightarrow> bool \<Rightarrow> world \<Rightarrow> world" where
  "finish i failed w =
     w\<lparr>inflight := filter (\<lambda>p. fst p \<noteq> i) (inflight w),
       history := (if failed then Failed i else Succeeded i) # history w\<rparr>"

datatype event =
    Mount
  | Devices_settled nat outcome
  | Data_settled nat outcome
  | Device_change string
  | Limit_change string
  | Refresh_click
  | Tick

text \<open>
  One event: the mount effect of lines 16 to 18, the end of the device-list or data
  request number \<open>i\<close>, a choice in the device selector, an edit of the limit field, a
  click on Refresh, a tick of the timer.  \<open>None\<close>: the event cannot happen (no such
  request in flight; the Refresh button is disabled while
  \<^verbatim>\<open>loading || !selectedDevice\<close>, line 149).  Handlers and the timer read the state
  of the latest render.  The events are taken generously: the mount effect may run
  again (as it does under React's strict mode, with the state kept), and the selector
  may deliver any string.
\<close>

definition apply_event :: "(string \<Rightarrow> jsnum) \<Rightarrow> event \<Rightarrow> world \<Rightarrow> world option" where
  "apply_event Number ev w =
     (case ev of
        Mount \<Rightarrow>
          (case fetchDevices (ui w) of (s, es) \<Rightarrow> Some (spawn es (w\<lparr>ui := s\<rparr>)))
      | Devices_settled i out \<Rightarrow>
          (case map_of (inflight w) i of
             Some (Await_devices l) \<Rightarrow>
               (case fetchDevices_resume l out (ui w) of
                  (s, es) \<Rightarrow>
                    Some (spawn es (finish i (Console_error Devices_catch \<in> set es)
                                      (w\<lparr>ui := s\<rparr>))))
           | _ \<Rightarrow> None)
      | Data_settled i out \<Rightarrow>
          (case map_of (inflight w) i of
             Some (Await_data n l b) \<Rightarrow>
               (case fetchDeviceData_resume n b out (ui w) of
                  (s, es) \<Rightarrow>
                    Some (finish i (Console_error Data_catch \<in> set es) (w\<lparr>ui := s\<rparr>)))
           | _ \<Rightarrow> None)
      | Device_change v \<Rightarrow>
          (case handleDeviceChange v (ui w) of (s, es) \<Rightarrow> Some (spawn es (w\<lparr>ui := s\<rparr>)))
      | Limit_change v \<Rightarrow> Some (w\<lparr>ui := limit_onChange Number v (ui w)\<rparr>)
      | Refresh_click \<Rightarrow>
          if loading (ui w) \<or> \<not> truthy (selectedDevice (ui w)) then None
          else (case handleRefreshClick (ui w) of (s, es) \<Rightarrow> Some (spawn es (w\<lparr>ui := s\<rparr>)))
      | Tick \<Rightarrow>
          (case tick (ui w) of (s, es) \<Rightarrow> Some (spawn es (w\<lparr>ui := s\<rparr>))))"

fun run :: "(string \<Rightarrow> jsnum) \<Rightarrow> event list \<Rightarrow> world \<Rightarrow> world option" where
  "run Number [] w = Some w"
| "run Number (ev # evs) w =
     (case apply_event Number ev w of None \<Rightarrow> None | Some w' \<Rightarrow> run Number evs w')"

text \<open>A fetch with the loading indicator shown is in flight.\<close>

fun shows_loading :: "nat \<times> effect \<Rightarrow> bool" where
  "shows_loading (i, Await_data n l b) = b"
| "shows_loading (i, e) = False"

definition user_fetch_in_flight :: "world \<Rightarrow> bool" where
  "user_fetch_in_flight w = list_ex shows_loading (inflight w)"

text \<open>
  The device-list response of the event, if it is one, gives a first name that converts
  to a string (as every string, number, boolean, \<^verbatim>\<open>null\<close> and \<^verbatim>\<open>undefined\<close> does).
\<close>

fun name_converts :: "event \<Rightarrow> bool" where
  "name_converts (Devices_settled i (Response st (Some data))) =
     (case deviceNames_of data of
        Inr (first # rest) \<Rightarrow> \<not> tostring_throws first
      | _ \<Rightarrow> True)"
| "name_converts ev = True"

text \<open>The row limit lies between 1 and 500.\<close>

fun in_range :: "jsnum \<Rightarrow> bool" where
  "in_range (Fin r) = (1 \<le> r \<and> r \<le> 500)"
| "in_range n = False"

text \<open>Strictly less on numbers; false when not-a-number is involved.\<close>

definition num_lt :: "jsnum \<Rightarrow> jsnum \<Rightarrow> bool" where
  "num_lt a b = (num_le a b \<and> a \<noteq> b)"

text \<open>
  Bookkeeping of the requests in flight: their numbers are distinct and below the next
  one to be given out.
\<close>

definition ids_ok :: "world \<Rightarrow> bool" where
  "ids_ok w = (distinct (map fst (inflight w)) \<and> list_all (\<lambda>p. fst p < next_id w) (inflight w))"

definition load_inv :: "world \<Rightarrow> bool" where
  "load_inv w = (ids_ok w \<and> \<not> tostring_throws (selectedDevice (ui w))
      \<and> (loading (ui w) \<longrightarrow> user_fetch_in_flight w))"

text \<open>
  The history without the successes: the starts and the failures of fetches, newest
  first.  A failure is on top when some fetch failed and none has started since.
\<close>

fun is_succeeded :: "hist \<Rightarrow> bool" where
  "is_succeeded (Succeeded i) = True"
| "is_succeeded h = False"

definition attempts :: "world \<Rightarrow> hist list" where
  "attempts w = filter (\<lambda>h. \<not> is_succeeded h) (history w)"

fun failure_on_top :: "hist list \<Rightarrow> bool" where
  "failure_on_top (Failed i # hs) = True"
| "failure_on_top hs = False"

definition error_inv :: "world \<Rightarrow> bool" where
  "error_inv w = (error (ui w) \<noteq> [] \<longrightarrow> failure_on_top (attempts w))"

text \<open>The fetch that was started last has failed.\<close>

definition latest_fetch_failed :: "world \<Rightarrow> bool" where
  "latest_fetch_failed w = (0 < next_id w \<and> Failed (next_id w - 1) \<in> set (history w))"

section \<open>Rendering the rows\<close>

text \<open>
  Lines 178 to 210.  A table cell holds literal text, the two-space-indented JSON text
  of a value (\<open>Pretty v\<close> stands for \<^verbatim>\<open>JSON.stringify(v, null, 2)\<close>), or the local
  rendering of a point in time (\<open>Local_time v\<close> stands for
  \<^verbatim>\<open>new Date(v).toLocaleString()\<close>, which depends on the locale and time zone of the
  browser).  \<open>parse\<close> is the platform's \<^verbatim>\<open>JSON.parse\<close>, \<open>None\<close> where it throws; the
  exception is swallowed (line 185).  Building the date throws where the string
  conversion of its argument does.
\<close>

datatype cell = Text string | Pretty js | Local_time js

record table_row =
  number :: nat
  topic :: js
  payload :: cell
  raw :: js
  time :: cell

text \<open>\<^verbatim>\<open>row.k\<close> on a row that is known not to be \<^verbatim>\<open>null\<close>.\<close>

definition field :: "js \<Rightarrow> string \<Rightarrow> js" where
  "field v k = (case get_field v k of Inl e \<Rightarrow> Undefined | Inr x \<Rightarrow> x)"

definition render_row :: "(string \<Rightarrow> js option) \<Rightarrow> js \<Rightarrow> nat \<Rightarrow> exn + table_row" where
  "render_row parse row index =
     (case get_field row ''payload_json'' of
        Inl e \<Rightarrow> Inl e
      | Inr p \<Rightarrow>
         let payloadJson =
               (case p of
                  Str t \<Rightarrow> (case parse t of None \<Rightarrow> p | Some v \<Rightarrow> v)
                | _ \<Rightarrow> p);
             createdAt =
               or_else (or_else (field row ''timestamp'') (field row ''created_at''))
                       (field row ''createdAt'')
         in if truthy createdAt \<and> tostring_throws createdAt then Inl TypeError
            else Inr \<lparr> number = index + 1,
                      topic = field row ''topic'',
                      payload = (if truthy payloadJson then Pretty payloadJson else Text ''-''),
                      raw = or_else (field row ''payload_raw'') (Str ''-''),
                      time = (if truthy createdAt then Local_time createdAt else Text ''-'') \<rparr>)"

fun render_from :: "(string \<Rightarrow> js option) \<Rightarrow> nat \<Rightarrow> js list \<Rightarrow> exn + table_row list" where
  "render_from parse index [] = Inr []"
| "render_from parse index (row # others) =
     (case render_row parse row index of
        Inl e \<Rightarrow> Inl e
      | Inr r \<Rightarrow>
         (case render_from parse (Suc index) others of
            Inl e \<Rightarrow> Inl e
          | Inr rs \<Rightarrow> Inr (r # rs)))"

text \<open>\<^verbatim>\<open>rows.map(...)\<close>: only an array has \<^verbatim>\<open>map\<close>.\<close>

fun render_rows :: "(string \<Rightarrow> js option) \<Rightarrow> js \<Rightarrow> exn + table_row list" where
  "render_rows parse (Arr rs) = render_from parse 0 rs"
| "render_rows parse v = Inl TypeError"

section \<open>A reference model of the JSON functions\<close>

text \<open>
  \<^verbatim>\<open>JSON.parse\<close> and \<^verbatim>\<open>JSON.stringify(v, null, 2)\<close> belong to the platform.  The
  functions below follow them on a fragment of JSON: white space, objects whose keys
  are not written like array indices, arrays, strings of printable ASCII without
  escapes, integer literals up to \<open>2 ^ 53\<close>, \<^verbatim>\<open>true\<close>, \<^verbatim>\<open>false\<close> and \<^verbatim>\<open>null\<close>.  Outside
  the fragment, as on a syntax error, they give \<open>None\<close>: a result \<open>Some v\<close> is the
  platform's result, a result \<open>None\<close> says nothing about it.
\<close>

definition is_ws :: "char \<Rightarrow> bool" where
  "is_ws c = (c = CHR '' '' \<or> c = CHR 0x0A \<or> c = CHR 0x0D \<or> c = CHR 0x09)"

definition is_digit :: "char \<Rightarrow> bool" where
  "is_digit c = (48 \<le> (of_char c :: nat) \<and> (of_char c :: nat) \<le> 57)"

definition skip_ws :: "string \<Rightarrow> string" where
  "skip_ws cs = dropWhile is_ws cs"

fun read_digits :: "nat \<Rightarrow> string \<Rightarrow> nat \<times> string" where
  "read_digits acc [] = (acc, [])"
| "read_digits acc (c # cs) =
     (if is_digit c then read_digits (10 * acc + (of_char c - 48)) cs else (acc, c # cs))"

text \<open>The rest of a string literal, up to the closing quote.\<close>

fun read_chars :: "string \<Rightarrow> string \<Rightarrow> (string \<times> string) option" where
  "read_chars acc [] = None"
| "read_chars acc (c # cs) =
     (if c = CHR 0x22 then Some (rev acc, cs)
      else if c = CHR 0x5C \<or> (of_char c :: nat) < 32 \<or> 127 \<le> (of_char c :: nat) then None
      else read_chars (c # acc) cs)"

definition read_number :: "string \<Rightarrow> (js \<times> string) option" where
  "read_number cs =
     (let (neg, ds) =
            (case cs of
               [] \<Rightarrow> (False, cs)
             | c # r \<Rightarrow> if c = CHR ''-'' then (True, r) else (False, cs))
      in case ds of
           [] \<Rightarrow> None
         | d # r \<Rightarrow>
            if is_digit d then
              (if d = CHR ''0'' \<and> (case r of [] \<Rightarrow> False | e # r' \<Rightarrow> is_digit e) then None
               else (case read_digits 0 ds of
                       (n, rest) \<Rightarrow>
                         if 9007199254740992 < n
                            \<or> (case rest of
                                  [] \<Rightarrow> False
                                | e # r' \<Rightarrow> e = CHR ''.'' \<or> e = CHR ''e'' \<or> e = CHR ''E'')
                         then None
                         else Some (Num (Fin (if neg then - real n else real n)), rest)))
            else None)"

text \<open>
  A key written like an array index (digits only): the platform lists such keys first,
  in numeric order, whatever their place in the text.
\<close>

definition index_like :: "string \<Rightarrow> bool" where
  "index_like k = (k \<noteq> [] \<and> list_all is_digit k)"

text \<open>A repeated key keeps its place and takes the later value.\<close>

fun put :: "string \<Rightarrow> js \<Rightarrow> (string \<times> js) list \<Rightarrow> (string \<times> js) list" where
  "put k v [] = [(k, v)]"
| "put k v ((k', v') # kvs) = (if k = k' then (k, v) # kvs else (k', v') # put k v kvs)"

text \<open>Recursive descent; the first argument bounds the depth of the recursion.\<close>

fun read_value :: "nat \<Rightarrow> string \<Rightarrow> (js \<times> string) option"
  and read_elements :: "nat \<Rightarrow> js list \<Rightarrow> string \<Rightarrow> (js \<times> string) option"
  and read_members :: "nat \<Rightarrow> (string \<times> js) list \<Rightarrow> string \<Rightarrow> (js \<times> string) option" where
  "read_value 0 cs = None"
| "read_value (Suc f) cs =
     (case skip_ws cs of
        [] \<Rightarrow> None
      | c # r \<Rightarrow>
         if c = CHR ''{'' then
           (case skip_ws r of
              [] \<Rightarrow> None
            | d # r' \<Rightarrow> if d = CHR ''}'' then Some (Obj [], r') else read_members f [] r)
         else if c = CHR ''['' then
           (case skip_ws r of
              [] \<Rightarrow> None
            | d # r' \<Rightarrow> if d = CHR '']'' then Some (Arr [], r') else read_elements f [] r)
         else if c = CHR 0x22 then
           (case read_chars [] r of None \<Rightarrow> None | Some (t, r') \<Rightarrow> Some (Str t, r'))
         else if take 4 (c # r) = ''true'' then Some (Bool True, drop 4 (c # r))
         else if take 5 (c # r) = ''false'' then Some (Bool False, drop 5 (c # r))
         else if take 4 (c # r) = ''null'' then Some (Null, drop 4 (c # r))
         else read_number (c # r))"
| "read_elements 0 acc cs = None"
| "read_elements (Suc f) acc cs =
     (case read_value f cs of
        None \<Rightarrow> None
      | Some (v, r) \<Rightarrow>
         (case skip_ws r of
            [] \<Rightarrow> None
          | c # r' \<Rightarrow>
             if c = CHR '','' then read_elements f (acc @ [v]) r'
             else if c = CHR '']'' then Some (Arr (acc @ [v]), r')
             else None))"
| "read_members 0 acc cs = None"
| "read_members (Suc f) acc cs =
     (case skip_ws cs of
        [] \<Rightarrow> None
      | q # r \<Rightarrow>
         if q = CHR 0x22 then
           (case read_chars [] r of
              None \<Rightarrow> None
            | Some (k, r1) \<Rightarrow>
               (case skip_ws r1 of
                  [] \<Rightarrow> None
                | c # r2 \<Rightarrow>
                   if c = CHR '':'' \<and> \<not> index_like k then
                     (case read_value f r2 of
                        None \<Rightarrow> None
                      | Some (v, r3) \<Rightarrow>
                         (case skip_ws r3 of
                            [] \<Rightarrow> None
                          | d # r4 \<Rightarrow>
                             if d = CHR '','' then read_members f (put k v acc) r4
                             else if d = CHR ''}'' then Some (Obj (put k v acc), r4)
                             else None))
                   else None))
         else None)"

definition JSON_parse :: "string \<Rightarrow> js option" where
  "JSON_parse t =
     (case read_value (Suc (length t)) t of
        None \<Rightarrow> None
      | Some (v, r) \<Rightarrow> if skip_ws r = [] then Some v else None)"

fun digits :: "nat \<Rightarrow> string" where
  "digits n =
     (if n < 10 then [''0123456789'' ! n]
      else digits (n div 10) @ [''0123456789'' ! (n mod 10)])"

definition indent :: "nat \<Rightarrow> string" where
  "indent l = replicate (2 * l) CHR '' ''"

definition plain :: "string \<Rightarrow> bool" where
  "plain t = list_all (\<lambda>c. c \<noteq> CHR 0x22 \<and> c \<noteq> CHR 0x5C \<and> 32 \<le> (of_char c :: nat)
                          \<and> (of_char c :: nat) < 127) t"

definition quote :: "string \<Rightarrow> string" where
  "quote t = [CHR 0x22] @ t @ [CHR 0x22]"

fun join :: "string \<Rightarrow> string list \<Rightarrow> string" where
  "join sep [] = []"
| "join sep [t] = t"
| "join sep (t # ts) = t @ sep @ join sep ts"

definition block :: "string \<Rightarrow> string \<Rightarrow> nat \<Rightarrow> string list \<Rightarrow> string" where
  "block opening closing l ts =
     (if ts = [] then opening @ closing
      else opening @ [CHR 0x0A] @ indent (Suc l)
           @ join ('','' @ [CHR 0x0A] @ indent (Suc l)) ts
           @ [CHR 0x0A] @ indent l @ closing)"

text \<open>
  The text of a value at nesting level \<open>l\<close>.  An \<^verbatim>\<open>undefined\<close> member is left out and an
  \<^verbatim>\<open>undefined\<close> element is written as \<^verbatim>\<open>null\<close>; a number that is not finite is
  written as \<^verbatim>\<open>null\<close>.
\<close>

fun write_value :: "nat \<Rightarrow> js \<Rightarrow> string option"
  and write_elements :: "nat \<Rightarrow> js list \<Rightarrow> string list option"
  and write_members :: "nat \<Rightarrow> (string \<times> js) list \<Rightarrow> string list option" where
  "write_value l Undefined = None"
| "write_value l Null = Some ''null''"
| "write_value l (Bool b) = Some (if b then ''true'' else ''false'')"
| "write_value l (Num NaN) = Some ''null''"
| "write_value l (Num NegInf) = Some ''null''"
| "write_value l (Num PosInf) = Some ''null''"
| "write_value l (Num (Fin r)) =
     (if r = of_int \<lfloor>r\<rfloor> \<and> \<bar>r\<bar> < 10 ^ 15
      then Some ((if r < 0 then ''-'' else []) @ digits (nat \<bar>\<lfloor>r\<rfloor>\<bar>))
      else None)"
| "write_value l (Str t) = (if plain t then Some (quote t) else None)"
| "write_value l (Arr xs) =
     (case write_elements (Suc l) xs of
        None \<Rightarrow> None
      | Some ts \<Rightarrow> Some (block ''['' '']'' l ts))"
| "write_value l (Obj kvs) =
     (case write_members (Suc l) kvs of
        None \<Rightarrow> None
      | Some ts \<Rightarrow> Some (block ''{'' ''}'' l ts))"
| "write_elements l [] = Some []"
| "write_elements l (x # xs) =
     (case (if x = Undefined then Some ''null'' else write_value l x) of
        None \<Rightarrow> None
      | Some t \<Rightarrow> (case write_elements l xs of None \<Rightarrow> None | Some ts \<Rightarrow> Some (t # ts)))"
| "write_members l [] = Some []"
| "write_members l ((k, v) # kvs) =
     (if v = Undefined then write_members l kvs
      else if plain k \<and> \<not> index_like k then
        (case write_value l v of
           None \<Rightarrow> None
         | Some t \<Rightarrow>
            (case write_members l kvs of
               None \<Rightarrow> None
             | Some ts \<Rightarrow> Some ((quote k @ '': '' @ t) # ts)))
      else None)"

definition JSON_stringify :: "js \<Rightarrow> string option" where
  "JSON_stringify v = write_value 0 v"

section \<open>Sample data\<close>

text \<open>Two device records, and the device-list response holding them.\<close>

definition device_a :: js where
  "device_a = Obj [(''device_name'', Str ''d1'')]"

definition device_b :: js where
  "device_b = Obj [(''device_name'', Str ''d2'')]"

definition two_devices :: outcome where
  "two_devices = Response 200 (Some (Arr [device_a, device_b]))"

text \<open>The payload text \<^verbatim>\<open>{"a":1}\<close> and the data response of the round-trip example.\<close>

definition payload_text :: string where
  "payload_text = [CHR ''{'', CHR 0x22, CHR ''a'', CHR 0x22, CHR '':'', CHR ''1'', CHR ''}'']"

definition sample_row :: js where
  "sample_row = Obj [(''topic'', Str ''t1''), (''payload_json'', Str payload_text),
                     (''timestamp'', Str ''2024-01-01T00:00:00Z'')]"

definition sample_data :: outcome where
  "sample_data =
     Response 200 (Some (Obj [(''data'', Arr [sample_row]), (''count'', Num (Fin 1))]))"

text \<open>The state of the component once the first device's data has been loaded.\<close>

definition loaded_state :: state where
  "loaded_state =
     \<lparr> devices = [Str ''d1'', Str ''d2''], selectedDevice = Str ''d1'', limit = Fin 50,
       rows = Arr [sample_row],
       status = [Lit ''Loaded '', Sub (Num (Fin 1)), Lit '' rows for '', Sub (Str ''d1''),
                 Lit ''.''],
       error = [], loading = False \<rparr>"

text \<open>The first load: mount, device list, data of the first device.\<close>

definition first_load :: "event list" where
  "first_load = [Mount, Devices_settled 0 two_devices, Data_settled 1 sample_data]"

definition loaded_world :: world where
  "loaded_world =
     \<lparr> ui = loaded_state, inflight = [], next_id = 2,
       history = [Succeeded 1, Started 1, Succeeded 0, Started 0] \<rparr>"

text \<open>A string-to-number conversion on three inputs, for the examples.\<close>

definition sample_Number :: "string \<Rightarrow> jsnum" where
  "sample_Number v =
     (if v = [] then Fin 0 else if v = ''600'' then Fin 600
      else if v = ''-3'' then Fin (- 3) else NaN)"

text \<open>
  Two overlapping data fetches: the first device's fetch is still in flight when the
  user picks the second device; the first fetch then fails and the second succeeds.
\<close>

definition overlap_trace :: "event list" where
  "overlap_trace =
     [Mount, Devices_settled 0 two_devices, Device_change ''d2'',
      Data_settled 1 Network_error, Data_settled 2 sample_data]"

definition overlap_world :: world where
  "overlap_world =
     \<lparr> ui = \<lparr> devices = [Str ''d1'', Str ''d2''], selectedDevice = Str ''d2'',
              limit = Fin 50, rows = Arr [sample_row],
              status = [Lit ''Loaded '', Sub (Num (Fin 1)), Lit '' rows for '',
                        Sub (Str ''d2''), Lit ''.''],
              error = ''Failed to load data. Check API / database.'', loading = False \<rparr>,
       inflight = [], next_id = 3,
       history = [Succeeded 2, Failed 1, Started 2, Started 1, Succeeded 0, Started 0] \<rparr>"

text \<open>The device list has arrived and the first device's data is being fetched.\<close>

definition loading_trace :: "event list" where
  "loading_trace = [Mount, Devices_settled 0 two_devices]"

definition loading_world :: world where
  "loading_world =
     \<lparr> ui = \<lparr> devices = [Str ''d1'', Str ''d2''], selectedDevice = Str ''d1'',
              limit = Fin 50, rows = Arr [],
              status = [Lit ''Loading data for '', Sub (Str ''d1''), Lit ellipsis],
              error = [], loading = True \<rparr>,
       inflight = [(1, Await_data (Str ''d1'') (Fin 50) True)], next_id = 2,
       history = [Started 1, Succeeded 0, Started 0] \<rparr>"

text \<open>The device-list request has failed.\<close>

definition failed_trace :: "event list" where
  "failed_trace = [Mount, Devices_settled 0 Network_error]"

definition failed_world :: world where
  "failed_world =
     \<lparr> ui = \<lparr> devices = [], selectedDevice = Str [], limit = Fin 50, rows = Arr [],
              status = [Lit ''Error loading devices.''],
              error = ''Failed to load devices. Check API server or CORS.'',
              loading = False \<rparr>,
       inflight = [], next_id = 1,
       history = [Failed 0, Started 0] \<rparr>"

text \<open>The limit field is edited after the mount.\<close>

definition limit_trace :: "event list" where
  "limit_trace = [Mount, Limit_change ''600'']"

text \<open>A record without any of the three name fields.\<close>

definition nameless_record :: js where
  "nameless_record = Obj [(''id'', Num (Fin 7))]"

text \<open>A record whose \<^verbatim>\<open>device_name\<close> is present but empty.\<close>

definition renamed_record :: js where
  "renamed_record = Obj [(''device_name'', Str []), (''device'', Str ''x'')]"

text \<open>The two-space-indented text of the parsed payload.\<close>

definition pretty_text :: string where
  "pretty_text =
     [CHR ''{'', CHR 0x0A, CHR '' '', CHR '' '', CHR 0x22, CHR ''a'', CHR 0x22, CHR '':'',
      CHR '' '', CHR ''1'', CHR 0x0A, CHR ''}'']"

text \<open>The world after the mount and the edit of the limit field.\<close>

definition limit_world :: world where
  "limit_world =
     \<lparr> ui = \<lparr> devices = [], selectedDevice = Str [], limit = Fin 500, rows = Arr [],
              status = [Lit (''Loading devices'' @ ellipsis)], error = [], loading = False \<rparr>,
       inflight = [(0, Await_devices (Fin 50))], next_id = 1, history = [Started 0] \<rparr>"

text \<open>The surrogate \<^verbatim>\<open>\ud800\<close> on its own, as a device name.\<close>

definition unpaired :: string where
  "unpaired = [CHR 0xED, CHR 0xA0, CHR 0x80]"

text \<open>
  A device-list response whose only record names its device by an object that carries
  its own \<^verbatim>\<open>toString\<close>.
\<close>

definition odd_name :: js where
  "odd_name = Obj [(''toString'', Num (Fin 1))]"

definition odd_list :: js where
  "odd_list = Arr [Obj [(''device_name'', odd_name)]]"

definition odd_devices :: outcome where
  "odd_devices = Response 200 (Some odd_list)"

text \<open>The limit field is edited while the device list is loading.\<close>

definition stale_trace :: "event list" where
  "stale_trace = [Mount, Limit_change ''600'', Devices_settled 0 two_devices]"

definition stale_world :: world where
  "stale_world =
     \<lparr> ui = \<lparr> devices = [Str ''d1'', Str ''d2''], selectedDevice = Str ''d1'',
              limit = Fin 500, rows = Arr [],
              status = [Lit ''Loading data for '', Sub (Str ''d1''), Lit ellipsis],
              error = [], loading = True \<rparr>,
       inflight = [(1, Await_data (Str ''d1'') (Fin 50) True)], next_id = 2,
       history = [Started 1, Succeeded 0, Started 0] \<rparr>"

text \<open>After the first load the selector delivers the unpaired surrogate.\<close>

definition unpaired_trace :: "event list" where
  "unpaired_trace = first_load @ [Device_change unpaired]"

definition unpaired_world :: world where
  "unpaired_world =
     \<lparr> ui = \<lparr> devices = [Str ''d1'', Str ''d2''], selectedDevice = Str unpaired,
              limit = Fin 50, rows = Arr [sample_row],
              status = [Lit ''Error loading data.''],
              error = ''Failed to load data. Check API / database.'', loading = False \<rparr>,
       inflight = [], next_id = 3,
       history = [Failed 2, Started 2, Succeeded 1, Started 1, Succeeded 0, Started 0] \<rparr>"

section \<open>Basic facts about the operations\<close>

lemma ui_register: "ui (register e w) = ui w"
  by (simp add: register_def)

lemma ui_fail_at_once: "ui (fail_at_once w) = ui w"
  by (simp add: fail_at_once_def)

lemma ui_spawn: "ui (spawn es w) = ui w"
  by (induction es w rule: spawn.induct) (simp_all add: register_def fail_at_once_def)

lemmas begin_defs = fetchDeviceData_def data_catch_def data_finally_def Let_def

lemma begin_limit: "limit (fst (fetchDeviceData n l b s)) = limit s"
  by (simp add: begin_defs)

lemma begin_rows: "rows (fst (fetchDeviceData n l b s)) = rows s"
  by (simp add: begin_defs)

lemma begin_devices: "devices (fst (fetchDeviceData n l b s)) = devices s"
  by (simp add: begin_defs)

lemma begin_selected: "selectedDevice (fst (fetchDeviceData n l b s)) = selectedDevice s"
  by (simp add: begin_defs)

text \<open>
  After the call the flag is up exactly when the call raised it and did not go through
  \<^verbatim>\<open>finally\<close> before returning.
\<close>

lemma begin_loading:
  "loading (fst (fetchDeviceData n l b s)) =
     (if truthy n \<and> b then tostring_throws n \<or> \<not> uri_throws n else loading s)"
  by (simp add: begin_defs)

lemma begin_error:
  "error (fst (fetchDeviceData n l b s)) =
     (if truthy n
      then (if \<not> tostring_throws n \<and> uri_throws n
            then ''Failed to load data. Check API / database.'' else [])
      else error s)"
  by (simp add: begin_defs)

lemma begin_forgets_error:
  "truthy n \<Longrightarrow> fetchDeviceData n l b (s\<lparr>error := e\<rparr>) = fetchDeviceData n l b s"
  by (simp add: begin_defs)

lemma begin_calls: "calls (snd (fetchDeviceData n l b s)) = [Invoked n l b]"
  by (simp add: begin_defs calls_def)

lemma begin_effects:
  "snd (fetchDeviceData n l b s) =
     (if \<not> truthy n then [Invoked n l b]
      else if tostring_throws n then [Invoked n l b, Uncaught]
      else if uri_throws n then [Invoked n l b, Console_error Data_catch]
      else [Invoked n l b, Await_data n l b])"
  by (simp add: begin_defs)

lemma begin_spawn:
  "spawn (snd (fetchDeviceData n l b s)) w =
     (if truthy n \<and> \<not> tostring_throws n
      then (if uri_throws n then fail_at_once w else register (Await_data n l b) w)
      else w)"
  by (simp add: begin_effects)

lemma data_try_failed: "request_failed out \<Longrightarrow> data_try n out s = data_catch s"
  by (cases out) (auto simp: data_try_def)

lemmas resume_defs =
  fetchDeviceData_resume_def data_try_def data_catch_def data_finally_def Let_def

lemma data_resume_limit: "limit (fst (fetchDeviceData_resume n b out s)) = limit s"
  by (cases out) (auto simp: resume_defs split: option.splits sum.splits prod.splits)

lemma data_resume_loading:
  "loading (fst (fetchDeviceData_resume n b out s)) = (if b then False else loading s)"
  by (cases out) (auto simp: resume_defs split: option.splits sum.splits prod.splits)

lemma data_resume_selected:
  "selectedDevice (fst (fetchDeviceData_resume n b out s)) = selectedDevice s"
  by (cases out) (auto simp: resume_defs split: option.splits sum.splits prod.splits)

lemma data_resume_cases:
  "snd (fetchDeviceData_resume n b out s) = [Console_error Data_catch]
   \<or> (snd (fetchDeviceData_resume n b out s) = []
       \<and> error (fst (fetchDeviceData_resume n b out s)) = error s)"
  by (cases out) (auto simp: resume_defs split: option.splits sum.splits prod.splits)

lemma devices_resume_failed:
  "request_failed out \<Longrightarrow> fetchDevices_resume l out s = devices_catch s"
  by (cases out) (auto simp: fetchDevices_resume_def)

lemma devices_resume_limit: "limit (fst (fetchDevices_resume l out s)) = limit s"
  by (cases out)
     (auto simp: fetchDevices_resume_def devices_catch_def begin_limit Let_def
           split: option.splits sum.splits list.splits)

lemma devices_resume_names:
  assumes "ok st" "deviceNames_of data = Inr (first # rest)" "\<not> tostring_throws first"
  shows "fetchDevices_resume l (Response st (Some data)) s =
           fetchDeviceData first l True
             (s\<lparr>devices := first # rest, selectedDevice := first,
                status := [Lit ''Devices loaded. Selected: '', Sub first]\<rparr>)"
  using assms by (simp add: fetchDevices_resume_def Let_def)

lemma devices_resume_odd_name:
  assumes "ok st" "deviceNames_of data = Inr (first # rest)" "tostring_throws first"
  shows "fetchDevices_resume l (Response st (Some data)) s =
           devices_catch (s\<lparr>devices := first # rest, selectedDevice := first\<rparr>)"
  using assms by (simp add: fetchDevices_resume_def Let_def)

lemma devices_resume_empty:
  assumes "ok st"
  shows "fetchDevices_resume l (Response st (Some (Arr []))) s =
           (s\<lparr>devices := [], selectedDevice := Str [],
              status := [Lit ''No devices found in database.'']\<rparr>, [])"
  using assms by (simp add: fetchDevices_resume_def Let_def)

text \<open>
  The device-list continuation starts no fetch, or selects a usable first name and
  either starts the data request for it with the loading indicator shown or fails at
  once on building the URL.
\<close>

lemma devices_resume_loading_cases:
  assumes "name_converts (Devices_settled i out)"
  shows "(loading (fst (fetchDevices_resume l out s)) = loading s
           \<and> (\<forall>w. spawn (snd (fetchDevices_resume l out s)) w = w)
           \<and> (selectedDevice (fst (fetchDevices_resume l out s)) = selectedDevice s
                \<or> \<not> tostring_throws (selectedDevice (fst (fetchDevices_resume l out s)))))
         \<or> (\<not> loading (fst (fetchDevices_resume l out s))
              \<and> (\<forall>w. spawn (snd (fetchDevices_resume l out s)) w = fail_at_once w)
              \<and> \<not> tostring_throws (selectedDevice (fst (fetchDevices_resume l out s))))
         \<or> (\<exists>first. \<not> tostring_throws first
              \<and> selectedDevice (fst (fetchDevices_resume l out s)) = first
              \<and> loading (fst (fetchDevices_resume l out s))
              \<and> (\<forall>w. spawn (snd (fetchDevices_resume l out s)) w =
                        register (Await_data first l True) w))"
  using assms
  by (cases out)
     (auto simp: fetchDevices_resume_def devices_catch_def begin_defs
           split: option.splits sum.splits list.splits)

lemma devices_resume_error_cases:
  "(snd (fetchDevices_resume l out s) = [Console_error Devices_catch])
   \<or> (Console_error Devices_catch \<notin> set (snd (fetchDevices_resume l out s))
       \<and> (error (fst (fetchDevices_resume l out s)) = []
           \<or> error (fst (fetchDevices_resume l out s)) = error s
              \<and> (\<forall>w. spawn (snd (fetchDevices_resume l out s)) w = w)
           \<or> (\<forall>w. spawn (snd (fetchDevices_resume l out s)) w = fail_at_once w)))"
  by (cases out)
     (auto simp: fetchDevices_resume_def devices_catch_def begin_defs
           split: option.splits sum.splits list.splits)

lemma in_range_onChange: "in_range (limit (limit_onChange Number v s))"
  by (cases "Number v")
     (auto simp: limit_onChange_def Math_max_def Math_min_def num_or_def)

lemma map_throwing_length: "map_throwing f xs = Inr ys \<Longrightarrow> length ys = length xs"
  by (induction xs arbitrary: ys) (auto split: sum.splits)

section \<open>What an event is, unfolded\<close>

lemma apply_devices_settled:
  assumes "apply_event Number (Devices_settled i out) w = Some w'"
  obtains l where "map_of (inflight w) i = Some (Await_devices l)"
    and "w' = spawn (snd (fetchDevices_resume l out (ui w)))
               (finish i (Console_error Devices_catch \<in> set (snd (fetchDevices_resume l out (ui w))))
                  (w\<lparr>ui := fst (fetchDevices_resume l out (ui w))\<rparr>))"
  using assms
  by (auto simp: apply_event_def split: option.splits effect.splits prod.splits)

lemma apply_data_settled:
  assumes "apply_event Number (Data_settled i out) w = Some w'"
  obtains n l b where "map_of (inflight w) i = Some (Await_data n l b)"
    and "w' = finish i (Console_error Data_catch \<in> set (snd (fetchDeviceData_resume n b out (ui w))))
                (w\<lparr>ui := fst (fetchDeviceData_resume n b out (ui w))\<rparr>)"
  using assms
  by (auto simp: apply_event_def split: option.splits effect.splits prod.splits)

lemma apply_device_change:
  assumes "apply_event Number (Device_change v) w = Some w'"
  shows "w' = (if truthy (Str v)
               then spawn (snd (fetchDeviceData (Str v) (limit (ui w)) True
                                  (ui w\<lparr>selectedDevice := Str v\<rparr>)))
                      (w\<lparr>ui := fst (fetchDeviceData (Str v) (limit (ui w)) True
                                      (ui w\<lparr>selectedDevice := Str v\<rparr>))\<rparr>)
               else w\<lparr>ui := ui w\<lparr>selectedDevice := Str v, rows := Arr []\<rparr>\<rparr>)"
  using assms
  by (auto simp: apply_event_def handleDeviceChange_def Let_def split: prod.splits)

lemma apply_refresh_click:
  assumes "apply_event Number Refresh_click w = Some w'"
  shows "w' = spawn (snd (fetchDeviceData (selectedDevice (ui w)) (limit (ui w)) True (ui w)))
                (w\<lparr>ui := fst (fetchDeviceData (selectedDevice (ui w)) (limit (ui w)) True
                                (ui w))\<rparr>)"
  using assms
  by (auto simp: apply_event_def handleRefreshClick_def split: prod.splits if_splits)

lemma apply_tick:
  assumes "apply_event Number Tick w = Some w'"
  shows "w' = (if truthy (selectedDevice (ui w)) \<and> \<not> loading (ui w)
               then spawn (snd (fetchDeviceData (selectedDevice (ui w)) (limit (ui w)) False
                                  (ui w)))
                      (w\<lparr>ui := fst (fetchDeviceData (selectedDevice (ui w)) (limit (ui w)) False
                                      (ui w))\<rparr>)
               else w)"
  using assms
  by (auto simp: apply_event_def tick_def split: prod.splits if_splits)

lemma apply_mount:
  assumes "apply_event Number Mount w = Some w'"
  shows "w' = register (Await_devices (limit (ui w)))
                (w\<lparr>ui := ui w\<lparr>status := [Lit (''Loading devices'' @ ellipsis)], error := []\<rparr>\<rparr>)"
  using assms by (auto simp: apply_event_def fetchDevices_def)

lemma apply_limit_change:
  assumes "apply_event Number (Limit_change v) w = Some w'"
  shows "w' = w\<lparr>ui := limit_onChange Number v (ui w)\<rparr>"
  using assms by (auto simp: apply_event_def)

section \<open>The row limit over a run\<close>

lemma limit_step:
  assumes "apply_event Number ev w = Some w'" "in_range (limit (ui w))"
  shows "in_range (limit (ui w'))"
proof (cases ev)
  case Mount
  with assms show ?thesis by (auto simp: ui_register dest!: apply_mount)
next
  case (Devices_settled i out)
  with assms(1) obtain l where
    "w' = spawn (snd (fetchDevices_resume l out (ui w)))
            (finish i (Console_error Devices_catch \<in> set (snd (fetchDevices_resume l out (ui w))))
               (w\<lparr>ui := fst (fetchDevices_resume l out (ui w))\<rparr>))"
    by (auto elim: apply_devices_settled)
  with assms(2) show ?thesis by (simp add: ui_spawn finish_def devices_resume_limit)
next
  case (Data_settled i out)
  with assms(1) obtain n l b where
    "w' = finish i (Console_error Data_catch \<in> set (snd (fetchDeviceData_resume n b out (ui w))))
            (w\<lparr>ui := fst (fetchDeviceData_resume n b out (ui w))\<rparr>)"
    by (auto elim: apply_data_settled)
  with assms(2) show ?thesis by (simp add: finish_def data_resume_limit)
next
  case (Device_change v)
  with assms show ?thesis
    by (auto simp: ui_spawn begin_limit dest!: apply_device_change split: if_splits)
next
  case (Limit_change v)
  with assms show ?thesis by (auto simp: in_range_onChange dest!: apply_limit_change)
next
  case Refresh_click
  with assms show ?thesis by (auto simp: ui_spawn begin_limit dest!: apply_refresh_click)
next
  case Tick
  with assms show ?thesis
    by (auto simp: ui_spawn begin_limit dest!: apply_tick split: if_splits)
qed

lemma limit_run:
  "run Number evs w = Some w' \<Longrightarrow> in_range (limit (ui w)) \<Longrightarrow> in_range (limit (ui w'))"
proof (induction evs arbitrary: w)
  case Nil
  then show ?case by simp
next
  case (Cons ev evs)
  then show ?case by (auto split: option.splits dest: limit_step)
qed

section \<open>The loading flag over a run\<close>

lemma ids_ok_register: "ids_ok w \<Longrightarrow> ids_ok (register e w)"
  by (auto simp: ids_ok_def register_def list_all_iff)

lemma ids_ok_fail_at_once: "ids_ok w \<Longrightarrow> ids_ok (fail_at_once w)"
  by (auto simp: ids_ok_def fail_at_once_def list_all_iff)

lemma ids_ok_finish: "ids_ok w \<Longrightarrow> ids_ok (finish i f w)"
  by (auto simp: ids_ok_def finish_def distinct_map_filter list_all_iff)

lemma ids_ok_ui: "ids_ok (w\<lparr>ui := s\<rparr>) = ids_ok w"
  by (simp add: ids_ok_def)

lemma user_register:
  "user_fetch_in_flight (register e w) = (user_fetch_in_flight w \<or> shows_loading (next_id w, e))"
  by (auto simp: user_fetch_in_flight_def register_def list_ex_iff)

lemma user_fail_at_once: "user_fetch_in_flight (fail_at_once w) = user_fetch_in_flight w"
  by (simp add: user_fetch_in_flight_def fail_at_once_def)

lemma user_ui: "user_fetch_in_flight (w\<lparr>ui := s\<rparr>) = user_fetch_in_flight w"
  by (simp add: user_fetch_in_flight_def)

text \<open>The end of a request that does not show the indicator leaves the others in flight.\<close>

lemma user_finish_other:
  assumes "ids_ok w" "map_of (inflight w) i = Some e" "\<not> shows_loading (i, e)"
  shows "user_fetch_in_flight (finish i f w) = user_fetch_in_flight w"
proof -
  have "j \<noteq> i" if a: "(j, e') \<in> set (inflight w)" "shows_loading (j, e')" for j e'
  proof
    assume "j = i"
    from assms(1) have "distinct (map fst (inflight w))" by (simp add: ids_ok_def)
    with a(1) have "map_of (inflight w) j = Some e'" by simp
    with assms(2) \<open>j = i\<close> have "e' = e" by simp
    with a(2) assms(3) \<open>j = i\<close> show False by simp
  qed
  then show ?thesis
    by (fastforce simp: user_fetch_in_flight_def finish_def list_ex_iff)
qed

lemma load_inv_begin:
  assumes "load_inv w" "\<not> tostring_throws n"
    "selectedDevice s = selectedDevice (ui w) \<or> \<not> tostring_throws (selectedDevice s)"
    "loading s = loading (ui w)"
  shows "load_inv (spawn (snd (fetchDeviceData n l b s)) (w\<lparr>ui := fst (fetchDeviceData n l b s)\<rparr>))"
  using assms
  by (auto simp: load_inv_def begin_spawn begin_loading begin_selected ids_ok_register
      ids_ok_fail_at_once ids_ok_ui user_register user_fail_at_once user_ui ui_register
      ui_fail_at_once split: if_splits)

lemma load_inv_step:
  assumes "apply_event Number ev w = Some w'" "load_inv w" "name_converts ev"
  shows "load_inv w'"
proof (cases ev)
  case Mount
  with assms show ?thesis
    by (auto simp: load_inv_def ids_ok_register ids_ok_ui user_register user_ui ui_register
        dest!: apply_mount split: if_splits)
next
  case (Devices_settled i out)
  with assms(1) obtain l where m: "map_of (inflight w) i = Some (Await_devices l)"
    and w': "w' = spawn (snd (fetchDevices_resume l out (ui w)))
                   (finish i (Console_error Devices_catch \<in> set (snd (fetchDevices_resume l out (ui w))))
                      (w\<lparr>ui := fst (fetchDevices_resume l out (ui w))\<rparr>))"
    by (auto elim: apply_devices_settled)
  let ?r = "fetchDevices_resume l out (ui w)"
  let ?w1 = "finish i (Console_error Devices_catch \<in> set (snd ?r)) (w\<lparr>ui := fst ?r\<rparr>)"
  from assms(2) have ids: "ids_ok (w\<lparr>ui := fst ?r\<rparr>)" by (simp add: load_inv_def ids_ok_ui)
  have uf: "user_fetch_in_flight ?w1 = user_fetch_in_flight w"
    using user_finish_other [OF ids, of i "Await_devices l"] m by (simp add: user_ui)
  have ids1: "ids_ok ?w1" using ids by (rule ids_ok_finish)
  have ui1: "ui ?w1 = fst ?r" by (simp add: finish_def)
  have nc: "name_converts (Devices_settled i out)" using assms(3) Devices_settled by simp
  consider
    (quiet) "loading (fst ?r) = loading (ui w)" "\<forall>w. spawn (snd ?r) w = w"
      "selectedDevice (fst ?r) = selectedDevice (ui w)
       \<or> \<not> tostring_throws (selectedDevice (fst ?r))"
  | (failed) "\<not> loading (fst ?r)" "\<forall>w. spawn (snd ?r) w = fail_at_once w"
      "\<not> tostring_throws (selectedDevice (fst ?r))"
  | (fetch) first where "\<not> tostring_throws first" "selectedDevice (fst ?r) = first"
      "loading (fst ?r)" "\<forall>w. spawn (snd ?r) w = register (Await_data first l True) w"
    using devices_resume_loading_cases [OF nc, of l "ui w"] by blast
  then show ?thesis
  proof cases
    case quiet
    then have "w' = ?w1" using w' by simp
    with quiet assms(2) uf ids1 ui1 show ?thesis by (auto simp: load_inv_def split: if_splits)
  next
    case failed
    then have "w' = fail_at_once ?w1" using w' by simp
    with failed ids1 ui1 show ?thesis
      by (auto simp: load_inv_def ids_ok_fail_at_once ui_fail_at_once)
  next
    case fetch
    then have "w' = register (Await_data first l True) ?w1" using w' by simp
    with fetch ids1 ui1 show ?thesis
      by (auto simp: load_inv_def ids_ok_register user_register ui_register)
  qed
next
  case (Data_settled i out)
  with assms(1) obtain n l b where m: "map_of (inflight w) i = Some (Await_data n l b)"
    and w': "w' = finish i (Console_error Data_catch \<in> set (snd (fetchDeviceData_resume n b out (ui w))))
                   (w\<lparr>ui := fst (fetchDeviceData_resume n b out (ui w))\<rparr>)"
    by (auto elim: apply_data_settled)
  let ?r = "fetchDeviceData_resume n b out (ui w)"
  from assms(2) have ids: "ids_ok (w\<lparr>ui := fst ?r\<rparr>)" by (simp add: load_inv_def ids_ok_ui)
  have ids1: "ids_ok w'" unfolding w' using ids by (rule ids_ok_finish)
  have ui1: "ui w' = fst ?r" by (simp add: w' finish_def)
  show ?thesis
  proof (cases b)
    case True
    then show ?thesis using ids1 ui1 assms(2)
      by (simp add: load_inv_def data_resume_loading data_resume_selected)
  next
    case False
    then have "user_fetch_in_flight w' = user_fetch_in_flight w"
      unfolding w' using user_finish_other [OF ids, of i "Await_data n l b"] m
      by (simp add: user_ui)
    with False show ?thesis using ids1 ui1 assms(2)
      by (simp add: load_inv_def data_resume_loading data_resume_selected)
  qed
next
  case (Device_change v)
  show ?thesis
  proof (cases "truthy (Str v)")
    case True
    with assms(1) Device_change show ?thesis
      using load_inv_begin [OF assms(2), of "Str v" "ui w\<lparr>selectedDevice := Str v\<rparr>"
          "limit (ui w)" True]
      by (auto dest!: apply_device_change)
  next
    case False
    with assms(1) Device_change
    have "w' = w\<lparr>ui := ui w\<lparr>selectedDevice := Str v, rows := Arr []\<rparr>\<rparr>"
      by (auto dest!: apply_device_change)
    then show ?thesis using assms(2) by (auto simp: load_inv_def ids_ok_ui user_ui split: if_splits)
  qed
next
  case (Limit_change v)
  with assms show ?thesis
    by (auto simp: limit_onChange_def load_inv_def ids_ok_ui user_ui
        dest!: apply_limit_change split: if_splits)
next
  case Refresh_click
  with assms(1) show ?thesis
    using load_inv_begin [OF assms(2), of "selectedDevice (ui w)" "ui w" "limit (ui w)" True]
      assms(2)
    by (auto simp: load_inv_def dest!: apply_refresh_click)
next
  case Tick
  show ?thesis
  proof (cases "truthy (selectedDevice (ui w)) \<and> \<not> loading (ui w)")
    case True
    with assms(1) Tick show ?thesis
      using load_inv_begin [OF assms(2), of "selectedDevice (ui w)" "ui w" "limit (ui w)" False]
        assms(2)
      by (auto simp: load_inv_def dest!: apply_tick)
  next
    case False
    with assms(1) Tick have "w' = w" by (auto dest!: apply_tick)
    with assms(2) show ?thesis by simp
  qed
qed

lemma load_inv_run:
  "run Number evs w = Some w' \<Longrightarrow> load_inv w \<Longrightarrow> list_all name_converts evs \<Longrightarrow> load_inv w'"
proof (induction evs arbitrary: w)
  case Nil
  then show ?case by simp
next
  case (Cons ev evs)
  then show ?case by (auto split: option.splits dest: load_inv_step)
qed

lemma load_inv_init: "load_inv init_world"
  by (simp add: load_inv_def ids_ok_def init_world_def init_state_def)

section \<open>The error message over a run\<close>

lemma error_inv_begin:
  assumes "error_inv w" "error s = error (ui w)"
  shows "error_inv (spawn (snd (fetchDeviceData n l b s)) (w\<lparr>ui := fst (fetchDeviceData n l b s)\<rparr>))"
  using assms
  by (auto simp: error_inv_def begin_spawn begin_error attempts_def ui_register ui_fail_at_once
      fail_at_once_def register_def split: if_splits)

lemma error_inv_step:
  assumes "apply_event Number ev w = Some w'" "error_inv w"
  shows "error_inv w'"
proof (cases ev)
  case Mount
  with assms show ?thesis by (auto simp: error_inv_def ui_register dest!: apply_mount)
next
  case (Devices_settled i out)
  with assms(1) obtain l where
    w': "w' = spawn (snd (fetchDevices_resume l out (ui w)))
                   (finish i (Console_error Devices_catch \<in> set (snd (fetchDevices_resume l out (ui w))))
                      (w\<lparr>ui := fst (fetchDevices_resume l out (ui w))\<rparr>))"
    by (auto elim: apply_devices_settled)
  let ?r = "fetchDevices_resume l out (ui w)"
  consider (failed) "snd ?r = [Console_error Devices_catch]"
    | (cleared) "Console_error Devices_catch \<notin> set (snd ?r)" "error (fst ?r) = []"
    | (kept) "Console_error Devices_catch \<notin> set (snd ?r)" "error (fst ?r) = error (ui w)"
        "\<forall>w. spawn (snd ?r) w = w"
    | (child) "Console_error Devices_catch \<notin> set (snd ?r)"
        "\<forall>w. spawn (snd ?r) w = fail_at_once w"
    using devices_resume_error_cases [of l out "ui w"] by blast
  then show ?thesis
  proof cases
    case failed
    with w' show ?thesis by (simp add: error_inv_def finish_def attempts_def)
  next
    case cleared
    with w' show ?thesis by (simp add: error_inv_def ui_spawn finish_def)
  next
    case kept
    with w' assms(2) show ?thesis by (simp add: error_inv_def finish_def attempts_def)
  next
    case child
    with w' show ?thesis by (simp add: error_inv_def finish_def fail_at_once_def attempts_def)
  qed
next
  case (Data_settled i out)
  with assms(1) obtain n l b where
    w': "w' = finish i (Console_error Data_catch \<in> set (snd (fetchDeviceData_resume n b out (ui w))))
                   (w\<lparr>ui := fst (fetchDeviceData_resume n b out (ui w))\<rparr>)"
    by (auto elim: apply_data_settled)
  let ?r = "fetchDeviceData_resume n b out (ui w)"
  consider (failed) "snd ?r = [Console_error Data_catch]"
    | (kept) "snd ?r = []" "error (fst ?r) = error (ui w)"
    using data_resume_cases [of n b out "ui w"] by blast
  then show ?thesis
  proof cases
    case failed
    with w' show ?thesis by (simp add: error_inv_def finish_def attempts_def)
  next
    case kept
    with w' assms(2) show ?thesis by (simp add: error_inv_def finish_def attempts_def)
  qed
next
  case (Device_change v)
  show ?thesis
  proof (cases "truthy (Str v)")
    case True
    with assms(1) Device_change show ?thesis
      using error_inv_begin [OF assms(2), of "ui w\<lparr>selectedDevice := Str v\<rparr>" "Str v"
          "limit (ui w)" True]
      by (auto dest!: apply_device_change)
  next
    case False
    with assms(1) Device_change
    have "w' = w\<lparr>ui := ui w\<lparr>selectedDevice := Str v, rows := Arr []\<rparr>\<rparr>"
      by (auto dest!: apply_device_change)
    then show ?thesis using assms(2) by (auto simp: error_inv_def attempts_def split: if_splits)
  qed
next
  case (Limit_change v)
  with assms show ?thesis
    by (auto simp: limit_onChange_def error_inv_def attempts_def
        dest!: apply_limit_change split: if_splits)
next
  case Refresh_click
  with assms(1) show ?thesis
    using error_inv_begin [OF assms(2), of "ui w" "selectedDevice (ui w)" "limit (ui w)" True]
    by (auto dest!: apply_refresh_click)
next
  case Tick
  show ?thesis
  proof (cases "truthy (selectedDevice (ui w)) \<and> \<not> loading (ui w)")
    case True
    with assms(1) Tick show ?thesis
      using error_inv_begin [OF assms(2), of "ui w" "selectedDevice (ui w)" "limit (ui w)" False]
      by (auto dest!: apply_tick)
  next
    case False
    with assms(1) Tick have "w' = w" by (auto dest!: apply_tick)
    with assms(2) show ?thesis by simp
  qed
qed

lemma error_inv_run:
  "run Number evs w = Some w' \<Longrightarrow> error_inv w \<Longrightarrow> error_inv w'"
proof (induction evs arbitrary: w)
  case Nil
  then show ?case by simp
next
  case (Cons ev evs)
  then show ?case by (auto split: option.splits dest: error_inv_step)
qed

lemma error_inv_init: "error_inv init_world"
  by (simp add: error_inv_def init_world_def init_state_def)

section \<open>The sample runs\<close>

lemmas run_defs =
  init_world_def init_state_def apply_event_def fetchDevices_def fetchDevices_resume_def
  fetchDeviceData_def fetchDeviceData_resume_def data_try_def data_catch_def data_finally_def
  devices_catch_def handleDeviceChange_def limit_onChange_def name_of_def device_a_def
  device_b_def two_devices_def sample_data_def ok_def register_def finish_def fail_at_once_def
  or_else_def Let_def

lemma run_first_load: "run Number first_load init_world = Some loaded_world"
  by (simp add: first_load_def loaded_world_def loaded_state_def run_defs)

lemma run_overlap: "run Number overlap_trace init_world = Some overlap_world"
  by (simp add: overlap_trace_def overlap_world_def run_defs)

lemma run_loading: "run Number loading_trace init_world = Some loading_world"
  by (simp add: loading_trace_def loading_world_def run_defs)

lemma run_failed: "run Number failed_trace init_world = Some failed_world"
  by (simp add: failed_trace_def failed_world_def run_defs)

lemma run_limit: "run sample_Number limit_trace init_world = Some limit_world"
  by (simp add: limit_trace_def limit_world_def sample_Number_def Math_max_def Math_min_def
      num_or_def run_defs)

lemma run_stale: "run sample_Number stale_trace init_world = Some stale_world"
  by (simp add: stale_trace_def stale_world_def sample_Number_def Math_max_def Math_min_def
      num_or_def run_defs)

lemma run_unpaired: "run Number unpaired_trace init_world = Some unpaired_world"
  by (simp add: unpaired_trace_def first_load_def unpaired_world_def unpaired_def run_defs)

section \<open>The claims\<close>

subsection \<open>C1: an empty device list\<close>

text \<open>
  C1, as amended.  For every device-list response that is an empty array, the
  list-devices operation empties the device list, sets the selected device to the empty
  string, sets the status to \<^verbatim>\<open>No devices found in database.\<close>, and neither calls
  \<^verbatim>\<open>fetchDeviceData\<close> nor issues a data request.  It leaves the reading list as it
  was: no path of \<^verbatim>\<open>fetchDevices\<close> writes \<^verbatim>\<open>rows\<close>, so the list is empty afterwards
  only when it was empty before, as on the first load.
\<close>

theorem C1_empty_device_list:
  assumes "ok st"
  shows "devices (fst (list_devices (Response st (Some (Arr []))) s)) = []
       \<and> selectedDevice (fst (list_devices (Response st (Some (Arr []))) s)) = Str []
       \<and> status (fst (list_devices (Response st (Some (Arr []))) s)) =
           [Lit ''No devices found in database.'']
       \<and> rows (fst (list_devices (Response st (Some (Arr []))) s)) = rows s
       \<and> calls (snd (list_devices (Response st (Some (Arr []))) s)) = []
       \<and> filter is_data_request (snd (list_devices (Response st (Some (Arr []))) s)) = []"
  using assms
  by (simp add: list_devices_def fetchDevices_def devices_resume_empty calls_def)

theorem C1_empty_device_list_witness:
  "ok 200
   \<and> selectedDevice (fst (list_devices (Response 200 (Some (Arr []))) init_state)) = Str []
   \<and> rows (fst (list_devices (Response 200 (Some (Arr []))) init_state)) = Arr []
   \<and> calls (snd (list_devices (Response 200 (Some (Arr []))) init_state)) = []"
proof -
  have h: "ok 200" by (simp add: ok_def)
  show ?thesis
    using h C1_empty_device_list [OF h, of init_state] by (simp add: init_state_def)
qed

text \<open>
  The claim as stated fails where readings are on display, as in the state after the
  first load: when list-devices runs again there and the device list comes back empty,
  the readings are still there.
\<close>

theorem C1_rows_not_cleared:
  "rows (fst (list_devices (Response 200 (Some (Arr []))) loaded_state)) \<noteq> Arr []"
  by (simp add: list_devices_def fetchDevices_def devices_resume_empty ok_def loaded_state_def)

subsection \<open>C2: a failed device-list request\<close>

text \<open>
  C2, as amended.  For every failing device-list request (network error, status outside
  200 to 299, or a body that does not parse) the list-devices operation leaves the
  device list and the reading list as they were (both are empty on the first load),
  sets the error message to a non-empty text, sets the status to
  \<^verbatim>\<open>Error loading devices.\<close>, and does not call \<^verbatim>\<open>fetchDeviceData\<close>.
\<close>

theorem C2_failed_device_list:
  assumes "request_failed out"
  shows "devices (fst (list_devices out s)) = devices s
       \<and> rows (fst (list_devices out s)) = rows s
       \<and> error (fst (list_devices out s)) = ''Failed to load devices. Check API server or CORS.''
       \<and> error (fst (list_devices out s)) \<noteq> []
       \<and> status (fst (list_devices out s)) = [Lit ''Error loading devices.'']
       \<and> calls (snd (list_devices out s)) = []"
  using assms
  by (simp add: list_devices_def fetchDevices_def devices_resume_failed devices_catch_def
      calls_def)

theorem C2_failed_device_list_witness:
  "request_failed (Response 404 (Some Null))
   \<and> devices (fst (list_devices (Response 404 (Some Null)) init_state)) = []
   \<and> rows (fst (list_devices (Response 404 (Some Null)) init_state)) = Arr []
   \<and> error (fst (list_devices (Response 404 (Some Null)) init_state)) \<noteq> []"
proof -
  have h: "request_failed (Response 404 (Some Null))" by (simp add: ok_def)
  show ?thesis
    using h C2_failed_device_list [OF h, of init_state] by (simp add: init_state_def)
qed

text \<open>
  The claim as stated fails where devices and readings are on display, as in the state
  after the first load: when list-devices runs again there and its request fails,
  neither list is empty afterwards.
\<close>

theorem C2_lists_not_emptied:
  "devices (fst (list_devices Network_error loaded_state)) \<noteq> []
   \<and> rows (fst (list_devices Network_error loaded_state)) \<noteq> Arr []"
  by (simp add: list_devices_def fetchDevices_def fetchDevices_resume_def devices_catch_def
      loaded_state_def)

subsection \<open>C3: a failed data request\<close>

text \<open>
  C3.  For every call of \<^verbatim>\<open>fetchDeviceData\<close> with a non-empty device name (any truthy
  name that converts to a string, as every non-empty string does) whose request fails
  (network error, status outside 200 to 299, or a body that does not parse), the
  reading list afterwards is the one before the call, the error message is the
  non-empty text \<^verbatim>\<open>Failed to load data. Check API / database.\<close>, and the status is
  \<^verbatim>\<open>Error loading data.\<close>.
\<close>

theorem C3_failed_data_fetch:
  assumes "request_failed out" "truthy n" "\<not> tostring_throws n"
  shows "rows (fst (fetch_device_data n l b out s)) = rows s
       \<and> error (fst (fetch_device_data n l b out s)) = ''Failed to load data. Check API / database.''
       \<and> error (fst (fetch_device_data n l b out s)) \<noteq> []
       \<and> status (fst (fetch_device_data n l b out s)) = [Lit ''Error loading data.'']"
  using assms
  by (simp add: fetch_device_data_def fetchDeviceData_def fetchDeviceData_resume_def
      data_try_failed data_catch_def data_finally_def Let_def)

theorem C3_failed_data_fetch_witness:
  "request_failed (Response 500 None) \<and> truthy (Str ''d1'') \<and> \<not> tostring_throws (Str ''d1'')
   \<and> rows (fst (fetch_device_data (Str ''d1'') (Fin 50) True (Response 500 None) loaded_state))
       = Arr [sample_row]
   \<and> error (fst (fetch_device_data (Str ''d1'') (Fin 50) True (Response 500 None) loaded_state))
       \<noteq> []"
proof -
  have h: "request_failed (Response 500 None)" "truthy (Str ''d1'')"
    "\<not> tostring_throws (Str ''d1'')"
    by simp_all
  show ?thesis
    using h C3_failed_data_fetch [OF h, of "Fin 50" True loaded_state]
    by (simp add: loaded_state_def)
qed

subsection \<open>C4: a device list with a first name\<close>

text \<open>
  C4, as amended.  For every device-list response that normalizes to at least one name,
  the list-devices operation stores the names and selects the first one.  When that
  name converts to a string (every string, number, boolean, \<^verbatim>\<open>null\<close> and \<^verbatim>\<open>undefined\<close>
  does) it calls \<^verbatim>\<open>fetchDeviceData\<close> exactly once: for that name, with
  \<^verbatim>\<open>showLoading = true\<close>, and with the current limit, provided the limit has not
  changed since list-devices was called (the continuation is run here with the limit
  of its closure equal to the current one, in any state).  When the name is moreover
  non-empty and fit for a URL, the call issues the one data request and raises the
  loading flag.  When the first name does not convert to a string, no call is made and
  the device-list error is reported.
\<close>

theorem C4_first_device_selected:
  assumes "ok st" "deviceNames_of data = Inr (first # rest)"
  shows "devices (fst (fetchDevices_resume (limit s) (Response st (Some data)) s)) = first # rest
       \<and> selectedDevice (fst (fetchDevices_resume (limit s) (Response st (Some data)) s)) = first
       \<and> (\<not> tostring_throws first \<longrightarrow>
            calls (snd (fetchDevices_resume (limit s) (Response st (Some data)) s)) =
              [Invoked first (limit s) True])
       \<and> (\<not> tostring_throws first \<and> truthy first \<and> \<not> uri_throws first \<longrightarrow>
            filter is_data_request
              (snd (fetchDevices_resume (limit s) (Response st (Some data)) s)) =
              [Await_data first (limit s) True]
            \<and> loading (fst (fetchDevices_resume (limit s) (Response st (Some data)) s)))
       \<and> (tostring_throws first \<longrightarrow>
            calls (snd (fetchDevices_resume (limit s) (Response st (Some data)) s)) = []
            \<and> error (fst (fetchDevices_resume (limit s) (Response st (Some data)) s)) =
                ''Failed to load devices. Check API server or CORS.'')"
proof (cases "tostring_throws first")
  case True
  with assms show ?thesis
    by (simp add: devices_resume_odd_name devices_catch_def calls_def)
next
  case False
  with assms show ?thesis
    by (simp add: devices_resume_names begin_devices begin_selected begin_effects
        begin_loading calls_def)
qed

theorem C4_first_device_selected_witness:
  "ok 200 \<and> deviceNames_of (Arr [device_a, device_b]) = Inr [Str ''d1'', Str ''d2'']
   \<and> \<not> tostring_throws (Str ''d1'') \<and> truthy (Str ''d1'') \<and> \<not> uri_throws (Str ''d1'')
   \<and> selectedDevice (fst (fetchDevices_resume (limit loaded_state) two_devices loaded_state)) =
       Str ''d1''
   \<and> calls (snd (fetchDevices_resume (limit loaded_state) two_devices loaded_state)) =
       [Invoked (Str ''d1'') (Fin 50) True]
   \<and> filter is_data_request
       (snd (fetchDevices_resume (limit loaded_state) two_devices loaded_state)) =
       [Await_data (Str ''d1'') (Fin 50) True]
   \<and> loading (fst (fetchDevices_resume (limit loaded_state) two_devices loaded_state))
   \<and> deviceNames_of odd_list = Inr [odd_name] \<and> tostring_throws odd_name
   \<and> selectedDevice (fst (fetchDevices_resume (limit loaded_state) odd_devices loaded_state)) =
       odd_name
   \<and> calls (snd (fetchDevices_resume (limit loaded_state) odd_devices loaded_state)) = []"
proof -
  have h: "ok 200" "deviceNames_of (Arr [device_a, device_b]) = Inr [Str ''d1'', Str ''d2'']"
    by (simp_all add: ok_def name_of_def device_a_def device_b_def)
  have c: "\<not> tostring_throws (Str ''d1'')" "truthy (Str ''d1'')" "\<not> uri_throws (Str ''d1'')"
    by simp_all
  have k: "ok 200" "deviceNames_of odd_list = Inr [odd_name]"
    by (simp_all add: ok_def name_of_def odd_list_def odd_name_def)
  have t: "tostring_throws odd_name" by (simp add: odd_name_def)
  show ?thesis
    using h c k t C4_first_device_selected [OF h, of loaded_state]
      C4_first_device_selected [OF k, of loaded_state]
    by (simp add: two_devices_def odd_devices_def loaded_state_def)
qed

text \<open>
  The claim as stated fails in two ways.  When the limit field is edited while the
  device list is loading (mount, edit to 600, device list), the data request of the one
  call carries the limit 50 of the closure while the current limit is 500.  And on a
  device list whose first name is an object with its own \<^verbatim>\<open>toString\<close>, list-devices
  makes no call at all.
\<close>

theorem C4_stale_limit_or_no_call:
  "run sample_Number stale_trace init_world = Some stale_world
   \<and> limit (ui stale_world) = Fin 500
   \<and> inflight stale_world = [(1, Await_data (Str ''d1'') (Fin 50) True)]
   \<and> calls (snd (fetchDevices_resume (Fin 50) two_devices (ui limit_world))) =
       [Invoked (Str ''d1'') (Fin 50) True]
   \<and> limit (ui limit_world) = Fin 500
   \<and> calls (snd (list_devices odd_devices init_state)) = []"
proof -
  have "calls (snd (fetchDevices_resume (Fin 50) two_devices (ui limit_world))) =
       [Invoked (Str ''d1'') (Fin 50) True]"
    by (simp add: two_devices_def limit_world_def fetchDevices_resume_def ok_def name_of_def
        device_a_def device_b_def begin_calls Let_def)
  moreover have "calls (snd (list_devices odd_devices init_state)) = []"
    by (simp add: list_devices_def fetchDevices_def fetchDevices_resume_def odd_devices_def
        odd_list_def odd_name_def ok_def name_of_def devices_catch_def calls_def Let_def)
  ultimately show ?thesis
    by (simp add: run_stale) (simp add: stale_world_def limit_world_def)
qed

subsection \<open>C5: the background tick\<close>

text \<open>
  C5.  In every state, a tick of the timer does nothing (no call, no request, no change
  of state) when the loading flag is set or no device is selected, and otherwise calls
  \<^verbatim>\<open>fetchDeviceData\<close> exactly once, for the selected device and the current limit
  with \<^verbatim>\<open>showLoading = false\<close>, which leaves the loading flag down.
\<close>

theorem C5_background_tick:
  "(loading s \<or> \<not> truthy (selectedDevice s) \<longrightarrow> tick s = (s, []))
   \<and> (\<not> loading s \<and> truthy (selectedDevice s) \<longrightarrow>
        calls (snd (tick s)) = [Invoked (selectedDevice s) (limit s) False]
        \<and> loading (fst (tick s)) = False)"
  by (auto simp: tick_def begin_calls begin_loading)

theorem C5_background_tick_witness:
  "tick init_state = (init_state, [])
   \<and> tick (loaded_state\<lparr>loading := True\<rparr>) = (loaded_state\<lparr>loading := True\<rparr>, [])
   \<and> calls (snd (tick loaded_state)) = [Invoked (Str ''d1'') (Fin 50) False]"
  using C5_background_tick [of init_state] C5_background_tick [of loaded_state]
    C5_background_tick [of "loaded_state\<lparr>loading := True\<rparr>"]
  by (simp add: init_state_def loaded_state_def)

subsection \<open>C6: the loading flag\<close>

text \<open>
  C6.  A call of \<^verbatim>\<open>fetchDeviceData\<close> with a non-empty name (one that converts to a
  string) raises the loading flag at its start exactly when \<^verbatim>\<open>showLoading\<close> is true:
  when the call has issued its request, the flag is up if \<^verbatim>\<open>showLoading\<close> is true and
  as before otherwise.  Its completion, by success or by failure, lowers the flag
  exactly when \<^verbatim>\<open>showLoading\<close> is true; this holds when the request ends, and also when
  the call fails at once on building its URL and goes through \<^verbatim>\<open>finally\<close> before it
  returns.  With \<^verbatim>\<open>showLoading = false\<close> no step changes the flag.  Hence, along every
  run of the component from its initial state in which the device names the API
  delivers convert to strings, the loading flag is up only while a fetch with
  \<^verbatim>\<open>showLoading = true\<close> is in flight.
\<close>

theorem C6_loading_flag:
  "(truthy n \<and> \<not> tostring_throws n \<and> \<not> uri_throws n \<longrightarrow>
      snd (fetchDeviceData n l b s) = [Invoked n l b, Await_data n l b]
      \<and> loading (fst (fetchDeviceData n l b s)) = (if b then True else loading s))
   \<and> (truthy n \<and> \<not> tostring_throws n \<and> uri_throws n \<longrightarrow>
      snd (fetchDeviceData n l b s) = [Invoked n l b, Console_error Data_catch]
      \<and> loading (fst (fetchDeviceData n l b s)) = (if b then False else loading s))
   \<and> loading (fst (fetchDeviceData_resume n b out s)) = (if b then False else loading s)
   \<and> loading (fst (fetchDeviceData n l False s)) = loading s
   \<and> loading (fst (fetchDeviceData_resume n False out s)) = loading s
   \<and> (run Number evs init_world = Some w \<longrightarrow> list_all name_converts evs \<longrightarrow>
        loading (ui w) \<longrightarrow> user_fetch_in_flight w)"
proof (intro conjI impI)
  assume "truthy n \<and> \<not> tostring_throws n \<and> \<not> uri_throws n"
  then show "snd (fetchDeviceData n l b s) = [Invoked n l b, Await_data n l b]"
    and "loading (fst (fetchDeviceData n l b s)) = (if b then True else loading s)"
    by (simp_all add: begin_effects begin_loading)
next
  assume "truthy n \<and> \<not> tostring_throws n \<and> uri_throws n"
  then show "snd (fetchDeviceData n l b s) = [Invoked n l b, Console_error Data_catch]"
    and "loading (fst (fetchDeviceData n l b s)) = (if b then False else loading s)"
    by (simp_all add: begin_effects begin_loading)
next
  show "loading (fst (fetchDeviceData_resume n b out s)) = (if b then False else loading s)"
    by (rule data_resume_loading)
  show "loading (fst (fetchDeviceData n l False s)) = loading s"
    by (simp add: begin_loading)
  show "loading (fst (fetchDeviceData_resume n False out s)) = loading s"
    by (simp add: data_resume_loading)
next
  assume "run Number evs init_world = Some w" "list_all name_converts evs" "loading (ui w)"
  then have "load_inv w" using load_inv_run load_inv_init by blast
  with \<open>loading (ui w)\<close> show "user_fetch_in_flight w" by (simp add: load_inv_def)
qed

theorem C6_loading_flag_witness:
  "truthy (Str ''d1'') \<and> \<not> tostring_throws (Str ''d1'') \<and> \<not> uri_throws (Str ''d1'')
   \<and> loading (fst (fetchDeviceData (Str ''d1'') (Fin 50) True loaded_state))
   \<and> truthy (Str unpaired) \<and> \<not> tostring_throws (Str unpaired) \<and> uri_throws (Str unpaired)
   \<and> \<not> loading (fst (fetchDeviceData (Str unpaired) (Fin 50) True loaded_state))
   \<and> run sample_Number loading_trace init_world = Some loading_world
   \<and> list_all name_converts loading_trace
   \<and> loading (ui loading_world)
   \<and> user_fetch_in_flight loading_world"
proof -
  have a: "truthy (Str ''d1'') \<and> \<not> tostring_throws (Str ''d1'') \<and> \<not> uri_throws (Str ''d1'')"
    by simp
  have u: "truthy (Str unpaired) \<and> \<not> tostring_throws (Str unpaired) \<and> uri_throws (Str unpaired)"
    by (simp add: unpaired_def)
  have h: "run sample_Number loading_trace init_world = Some loading_world"
    by (rule run_loading)
  have c: "list_all name_converts loading_trace"
    by (simp add: loading_trace_def two_devices_def name_of_def device_a_def device_b_def)
  have f: "loading (ui loading_world)" by (simp add: loading_world_def)
  from C6_loading_flag [of "Str ''d1''" "Fin 50" True loaded_state Network_error sample_Number
      loading_trace loading_world] a h c f
  have 1: "loading (fst (fetchDeviceData (Str ''d1'') (Fin 50) True loaded_state))
      \<and> user_fetch_in_flight loading_world"
    by simp
  from C6_loading_flag [of "Str unpaired" "Fin 50" True loaded_state Network_error sample_Number
      loading_trace loading_world] u
  have 2: "\<not> loading (fst (fetchDeviceData (Str unpaired) (Fin 50) True loaded_state))"
    by simp
  from a u h c f 1 2 show ?thesis by blast
qed

subsection \<open>C7: the row limit\<close>

text \<open>
  C7.  Whatever the limit field holds and whatever number the platform converts it to,
  the stored limit lies in [1, 500]: a number above 500 becomes 500, a number below 1
  becomes 1, not-a-number (non-numeric text) and zero (the empty text) become 1, and a
  number within the bounds is stored as it is.  The initial limit is 50, and along
  every run of the component the stored limit stays in [1, 500].
\<close>

theorem C7_limit_clamped:
  "in_range (limit (limit_onChange Number v s))
   \<and> (num_lt (Fin 500) (Number v) \<longrightarrow> limit (limit_onChange Number v s) = Fin 500)
   \<and> (num_lt (Number v) (Fin 1) \<longrightarrow> limit (limit_onChange Number v s) = Fin 1)
   \<and> (Number v = NaN \<or> Number v = Fin 0 \<longrightarrow> limit (limit_onChange Number v s) = Fin 1)
   \<and> (in_range (Number v) \<longrightarrow> limit (limit_onChange Number v s) = Number v)
   \<and> limit init_state = Fin 50
   \<and> (run Number evs init_world = Some w \<longrightarrow> in_range (limit (ui w)))"
proof (intro conjI impI)
  show "in_range (limit (limit_onChange Number v s))" by (rule in_range_onChange)
  show "limit init_state = Fin 50" by (simp add: init_state_def)
next
  assume "num_lt (Fin 500) (Number v)"
  then show "limit (limit_onChange Number v s) = Fin 500"
    by (cases "Number v")
       (auto simp: limit_onChange_def Math_max_def Math_min_def num_or_def num_lt_def)
next
  assume "num_lt (Number v) (Fin 1)"
  then show "limit (limit_onChange Number v s) = Fin 1"
    by (cases "Number v")
       (auto simp: limit_onChange_def Math_max_def Math_min_def num_or_def num_lt_def)
next
  assume "Number v = NaN \<or> Number v = Fin 0"
  then show "limit (limit_onChange Number v s) = Fin 1"
    by (auto simp: limit_onChange_def Math_max_def Math_min_def num_or_def)
next
  assume "in_range (Number v)"
  then show "limit (limit_onChange Number v s) = Number v"
    by (cases "Number v")
       (auto simp: limit_onChange_def Math_max_def Math_min_def num_or_def)
next
  assume "run Number evs init_world = Some w"
  then show "in_range (limit (ui w))"
    using limit_run [of Number evs init_world w] by (simp add: init_world_def init_state_def)
qed

theorem C7_limit_clamped_witness:
  "limit (limit_onChange sample_Number ''600'' init_state) = Fin 500
   \<and> limit (limit_onChange sample_Number ''-3'' init_state) = Fin 1
   \<and> limit (limit_onChange sample_Number ''abc'' init_state) = Fin 1
   \<and> limit (limit_onChange sample_Number [] init_state) = Fin 1
   \<and> run sample_Number limit_trace init_world = Some limit_world
   \<and> in_range (limit (ui limit_world))"
proof -
  have r: "run sample_Number limit_trace init_world = Some limit_world" by (rule run_limit)
  show ?thesis
    using C7_limit_clamped [of sample_Number "''600''" init_state limit_trace limit_world]
      C7_limit_clamped [of sample_Number "''-3''" init_state limit_trace limit_world]
      C7_limit_clamped [of sample_Number "''abc''" init_state limit_trace limit_world]
      C7_limit_clamped [of sample_Number "[]" init_state limit_trace limit_world] r
    by (simp add: sample_Number_def num_lt_def)
qed

subsection \<open>C8: the name of a device record\<close>

text \<open>
  C8, as amended.  For every device record that is not \<^verbatim>\<open>null\<close>, the normalized name
  is the first truthy value among its fields \<^verbatim>\<open>device_name\<close>, \<^verbatim>\<open>device\<close> and
  \<^verbatim>\<open>deviceName\<close> (a field that is present but empty is passed over); when none of them
  is truthy it is the value of \<^verbatim>\<open>deviceName\<close>, which is \<^verbatim>\<open>undefined\<close> when the field
  is absent.  There is no fallback to the raw record.  The list of names has one entry
  for each record.
\<close>

theorem C8_normalized_name:
  assumes "get_field d ''device_name'' = Inr a" "get_field d ''device'' = Inr b"
    "get_field d ''deviceName'' = Inr c"
  shows "name_of d = Inr (if truthy a then a else if truthy b then b else c)
       \<and> (\<not> truthy a \<and> \<not> truthy b \<and> \<not> truthy c \<longrightarrow>
            name_of d = Inr c \<and> c \<noteq> d)
       \<and> (deviceNames_of (Arr ds) = Inr ns \<longrightarrow> length ns = length ds)"
proof (intro conjI impI)
  show "name_of d = Inr (if truthy a then a else if truthy b then b else c)"
    using assms by (simp add: name_of_def)
next
  assume f: "\<not> truthy a \<and> \<not> truthy b \<and> \<not> truthy c"
  with assms show "name_of d = Inr c" by (simp add: name_of_def)
  from f assms(3) show "c \<noteq> d" by (cases d) auto
next
  assume "deviceNames_of (Arr ds) = Inr ns"
  then show "length ns = length ds" by (simp add: map_throwing_length)
qed

theorem C8_normalized_name_witness:
  "get_field renamed_record ''device_name'' = Inr (Str [])
   \<and> get_field renamed_record ''device'' = Inr (Str ''x'')
   \<and> get_field renamed_record ''deviceName'' = Inr Undefined
   \<and> name_of renamed_record = Inr (Str ''x'')"
proof -
  have h: "get_field renamed_record ''device_name'' = Inr (Str [])"
    "get_field renamed_record ''device'' = Inr (Str ''x'')"
    "get_field renamed_record ''deviceName'' = Inr Undefined"
    by (simp_all add: renamed_record_def)
  show ?thesis using h C8_normalized_name [OF h] by simp
qed

text \<open>
  The claim as stated fails on a record that has none of the three fields: its name is
  \<^verbatim>\<open>undefined\<close>, not the record.
\<close>

theorem C8_no_fallback_to_record:
  "name_of nameless_record = Inr Undefined \<and> name_of nameless_record \<noteq> Inr nameless_record"
  by (simp add: name_of_def nameless_record_def)

subsection \<open>C9: the round trip of a payload\<close>

text \<open>
  C9.  For the data response
  \<^verbatim>\<open>{data:[{topic:"t1", payload_json:"{\"a\":1}", timestamp:"2024-01-01T00:00:00Z"}], count:1}\<close>
  the reading list becomes the one row of the response; the table shows exactly one
  row, numbered 1, whose payload cell holds the object parsed from the payload text,
  \<^verbatim>\<open>{a: 1}\<close>, and whose time cell holds the local rendering of the timestamp; and the
  text written for the parsed payload parses to the value the payload text parsed to.
\<close>

theorem C9_payload_round_trip:
  "rows (fst (fetchDeviceData_resume n b sample_data s)) = Arr [sample_row]
   \<and> render_rows JSON_parse (Arr [sample_row]) =
       Inr [\<lparr> number = 1, topic = Str ''t1'', payload = Pretty (Obj [(''a'', Num (Fin 1))]),
              raw = Str ''-'', time = Local_time (Str ''2024-01-01T00:00:00Z'') \<rparr>]
   \<and> JSON_parse payload_text = Some (Obj [(''a'', Num (Fin 1))])
   \<and> JSON_stringify (Obj [(''a'', Num (Fin 1))]) = Some pretty_text
   \<and> JSON_parse pretty_text = JSON_parse payload_text"
proof -
  have p: "JSON_parse payload_text = Some (Obj [(''a'', Num (Fin 1))])"
    by (simp add: JSON_parse_def payload_text_def skip_ws_def is_ws_def read_number_def
        index_like_def is_digit_def)
  have q: "JSON_parse pretty_text = Some (Obj [(''a'', Num (Fin 1))])"
    by (simp add: JSON_parse_def pretty_text_def skip_ws_def is_ws_def read_number_def
        index_like_def is_digit_def)
  have w: "JSON_stringify (Obj [(''a'', Num (Fin 1))]) = Some pretty_text"
    by (simp add: JSON_stringify_def pretty_text_def block_def plain_def quote_def indent_def
        index_like_def is_digit_def eval_nat_numeral)
  have r: "rows (fst (fetchDeviceData_resume n b sample_data s)) = Arr [sample_row]"
    by (simp add: fetchDeviceData_resume_def data_try_def data_catch_def data_finally_def
        sample_data_def ok_def or_else_def Let_def split: prod.splits)
  have t: "render_rows JSON_parse (Arr [sample_row]) =
       Inr [\<lparr> number = 1, topic = Str ''t1'', payload = Pretty (Obj [(''a'', Num (Fin 1))]),
              raw = Str ''-'', time = Local_time (Str ''2024-01-01T00:00:00Z'') \<rparr>]"
    by (simp add: render_row_def p field_def or_else_def sample_row_def Let_def)
  from p q w r t show ?thesis by simp
qed

subsection \<open>C10: the error message\<close>

text \<open>
  C10, as amended.  Every fetch operation (list-devices, and \<^verbatim>\<open>fetchDeviceData\<close> with a
  non-empty name, whatever \<^verbatim>\<open>showLoading\<close> is, hence also the silent refresh of a
  timer tick) sets the error message to the empty string before it issues its request:
  the message is empty when the request goes out, and what the call leaves behind does
  not depend on the message it found.  A call that fails before its request, on a name
  that cannot be put in a URL, leaves the message of its own failure.  Along every run
  of the component the error message is non-empty only if some fetch has failed and no
  fetch has been started since that failure.  When fetches overlap, the failed fetch
  need not be the one started last.
\<close>

theorem C10_error_reset:
  "error (fst (fetchDevices s)) = []
   \<and> (truthy n \<longrightarrow> fetchDeviceData n l b (s\<lparr>error := e\<rparr>) = fetchDeviceData n l b s)
   \<and> (truthy n \<and> \<not> tostring_throws n \<and> \<not> uri_throws n \<longrightarrow>
        snd (fetchDeviceData n l b s) = [Invoked n l b, Await_data n l b]
        \<and> error (fst (fetchDeviceData n l b s)) = [])
   \<and> (truthy n \<and> \<not> tostring_throws n \<and> uri_throws n \<longrightarrow>
        snd (fetchDeviceData n l b s) = [Invoked n l b, Console_error Data_catch]
        \<and> error (fst (fetchDeviceData n l b s)) = ''Failed to load data. Check API / database.'')
   \<and> (truthy (selectedDevice s) \<and> \<not> loading s \<longrightarrow>
        tick (s\<lparr>error := e\<rparr>) = tick s
        \<and> (Await_data (selectedDevice s) (limit s) False \<in> set (snd (tick s)) \<longrightarrow>
             error (fst (tick s)) = []))
   \<and> (run Number evs init_world = Some w \<longrightarrow> error (ui w) \<noteq> [] \<longrightarrow>
        failure_on_top (attempts w))"
proof (intro conjI impI)
  show "error (fst (fetchDevices s)) = []" by (simp add: fetchDevices_def)
next
  assume "truthy n"
  then show "fetchDeviceData n l b (s\<lparr>error := e\<rparr>) = fetchDeviceData n l b s"
    by (rule begin_forgets_error)
next
  assume "truthy n \<and> \<not> tostring_throws n \<and> \<not> uri_throws n"
  then show "snd (fetchDeviceData n l b s) = [Invoked n l b, Await_data n l b]"
    and "error (fst (fetchDeviceData n l b s)) = []"
    by (simp_all add: begin_effects begin_error)
next
  assume "truthy n \<and> \<not> tostring_throws n \<and> uri_throws n"
  then show "snd (fetchDeviceData n l b s) = [Invoked n l b, Console_error Data_catch]"
    and "error (fst (fetchDeviceData n l b s)) = ''Failed to load data. Check API / database.''"
    by (simp_all add: begin_effects begin_error)
next
  assume t: "truthy (selectedDevice s) \<and> \<not> loading s"
  then show "tick (s\<lparr>error := e\<rparr>) = tick s"
    by (simp add: tick_def begin_forgets_error)
  assume "Await_data (selectedDevice s) (limit s) False \<in> set (snd (tick s))"
  with t show "error (fst (tick s)) = []"
    by (simp add: tick_def begin_effects begin_error split: if_splits)
next
  assume "run Number evs init_world = Some w" "error (ui w) \<noteq> []"
  then show "failure_on_top (attempts w)"
    using error_inv_run [of Number evs init_world w] error_inv_init by (simp add: error_inv_def)
qed

theorem C10_error_reset_witness:
  "run sample_Number failed_trace init_world = Some failed_world
   \<and> error (ui failed_world) \<noteq> []
   \<and> failure_on_top (attempts failed_world)
   \<and> truthy (Str ''d1'') \<and> \<not> tostring_throws (Str ''d1'') \<and> \<not> uri_throws (Str ''d1'')
   \<and> error (fst (fetchDeviceData (Str ''d1'') (Fin 50) False (ui failed_world))) = []
   \<and> fetchDeviceData (Str ''d1'') (Fin 50) False ((ui failed_world)\<lparr>error := []\<rparr>) =
       fetchDeviceData (Str ''d1'') (Fin 50) False (ui failed_world)
   \<and> truthy (Str unpaired) \<and> \<not> tostring_throws (Str unpaired) \<and> uri_throws (Str unpaired)
   \<and> error (fst (fetchDeviceData (Str unpaired) (Fin 50) False (ui failed_world))) \<noteq> []
   \<and> truthy (selectedDevice loaded_state) \<and> \<not> loading loaded_state
   \<and> Await_data (selectedDevice loaded_state) (limit loaded_state) False
        \<in> set (snd (tick loaded_state))
   \<and> error (fst (tick loaded_state)) = []"
proof -
  have h: "run sample_Number failed_trace init_world = Some failed_world" by (rule run_failed)
  have x: "error (ui failed_world) \<noteq> []" by (simp add: failed_world_def)
  have a: "truthy (Str ''d1'') \<and> \<not> tostring_throws (Str ''d1'') \<and> \<not> uri_throws (Str ''d1'')"
    by simp
  have u: "truthy (Str unpaired) \<and> \<not> tostring_throws (Str unpaired) \<and> uri_throws (Str unpaired)"
    by (simp add: unpaired_def)
  have t: "truthy (selectedDevice loaded_state) \<and> \<not> loading loaded_state"
    by (simp add: loaded_state_def)
  have r: "Await_data (selectedDevice loaded_state) (limit loaded_state) False
        \<in> set (snd (tick loaded_state))"
    by (simp add: loaded_state_def tick_def begin_effects)
  from C10_error_reset [of "ui failed_world" "Str ''d1''" "Fin 50" False "[]" sample_Number
      failed_trace failed_world] h x a
  have 1: "failure_on_top (attempts failed_world)
     \<and> error (fst (fetchDeviceData (Str ''d1'') (Fin 50) False (ui failed_world))) = []
     \<and> fetchDeviceData (Str ''d1'') (Fin 50) False ((ui failed_world)\<lparr>error := []\<rparr>) =
         fetchDeviceData (Str ''d1'') (Fin 50) False (ui failed_world)"
    by simp
  from C10_error_reset [of "ui failed_world" "Str unpaired" "Fin 50" False "[]" sample_Number
      failed_trace failed_world] u
  have 2: "error (fst (fetchDeviceData (Str unpaired) (Fin 50) False (ui failed_world))) \<noteq> []"
    by simp
  from C10_error_reset [of loaded_state "Str ''d1''" "Fin 50" False "[]" sample_Number
      failed_trace failed_world] t r
  have 3: "error (fst (tick loaded_state)) = []"
    by simp
  from h x a u t r 1 2 3 show ?thesis by blast
qed

text \<open>
  The claim as stated fails in the run where two data fetches overlap: at its end the
  error message of the first fetch is on display although the fetch started last has
  succeeded.
\<close>

theorem C10_latest_fetch_succeeded:
  "run sample_Number overlap_trace init_world = Some overlap_world
   \<and> error (ui overlap_world) \<noteq> []
   \<and> \<not> latest_fetch_failed overlap_world"
  by (simp add: run_overlap) (simp add: overlap_world_def latest_fetch_failed_def)


end
